theory Spec2Isabelle
  imports Main
begin

section \<open>Environment records\<close>

text \<open>
  \<open>PythonEnvKind\<close> is a TypeScript string enumeration: at run time a kind is a string.
  \<open>convertKind\<close> is a type cast, so whatever value the external record carried arrives
  in a variable of this type; reading element 0 of an empty array gives \<open>undefined\<close>,
  which is \<open>None\<close> here.
\<close>

type_synonym PythonEnvKind = "string option"

text \<open>
  Modelled from the spec: the declaration of the enumeration \<open>PythonEnvKind\<close>
  (\<open>base/info\<close>) is not among the source files. The spec names the kinds Unknown, Venv
  and System and a conda-style kind; \<open>converter.ts\<close> uses \<open>PythonEnvKind.Unknown\<close>. The
  strings stand for the values the declaration gives its members.
\<close>

definition Unknown :: PythonEnvKind where
  "Unknown = Some ''unknown''"

definition Venv :: PythonEnvKind where
  "Venv = Some ''virt-venv''"

definition System :: PythonEnvKind where
  "System = Some ''global''"

definition Conda :: PythonEnvKind where
  "Conda = Some ''virt-conda''"

definition PythonEnvKind_members :: "PythonEnvKind list" where
  "PythonEnvKind_members = [Unknown, System, Venv, Conda]"

text \<open>
  The declarations of the record types (\<open>base/locator\<close>, \<open>base/info\<close>) are not among the
  source files: each record has the fields \<open>converter.ts\<close> reads and writes, with the
  names it uses.

  The external record of a provider (\<open>EnvInfo\<close>), as far as the adapter reads it.
\<close>

record EnvInfo =
  executablePath :: string
  envPath :: string
  envSources :: "string list"

text \<open>The adapter's output and the reducer's input (\<open>BasicEnvInfo\<close>, the spec's RawRecord).\<close>

record BasicEnvInfo =
  executablePath :: string
  envPath :: string
  kind :: PythonEnvKind
  extensionId :: string

text \<open>
  The reducer's output (\<open>CompositeEnvInfo\<close>, the spec's MergedRecord). \<open>source\<close> may be
  \<open>undefined\<close>: \<open>resolveEnvCollision\<close> reads it as \<open>source ?? []\<close>.
\<close>

record CompositeEnvInfo =
  executablePath :: string
  envPath :: string
  kind :: "PythonEnvKind list"
  extensionId :: string
  source :: "string list option"

record InternalEnvironmentProviderMetadata =
  extensionId :: string
  envKinds :: "PythonEnvKind list"

text \<open>The identity of a record: the pair (executablePath, envPath).\<close>

definition identity :: "CompositeEnvInfo \<Rightarrow> string \<times> string" where
  "identity e = (CompositeEnvInfo.executablePath e, CompositeEnvInfo.envPath e)"

definition basicIdentity :: "BasicEnvInfo \<Rightarrow> string \<times> string" where
  "basicIdentity r = (BasicEnvInfo.executablePath r, BasicEnvInfo.envPath r)"

text \<open>
  Modelled from the spec: \<open>areSameEnv\<close> (\<open>base/info/env\<close>) is not among the source files.
  The spec: two records denote the same environment when their executablePath and
  envPath agree.
\<close>

definition areSameEnv :: "CompositeEnvInfo \<Rightarrow> CompositeEnvInfo \<Rightarrow> bool" where
  "areSameEnv a b \<longleftrightarrow>
     CompositeEnvInfo.executablePath a = CompositeEnvInfo.executablePath b \<and>
     CompositeEnvInfo.envPath a = CompositeEnvInfo.envPath b"

text \<open>
  Modelled from the spec: \<open>convertBasicToComposite\<close> (\<open>base/locator\<close>) is not among the
  source files. The spec: convert the raw record to a merged record with
  source = {providerId} and kind = {kind}.
\<close>

definition convertBasicToComposite :: "BasicEnvInfo \<Rightarrow> CompositeEnvInfo" where
  "convertBasicToComposite r =
     \<lparr> CompositeEnvInfo.executablePath = BasicEnvInfo.executablePath r,
       CompositeEnvInfo.envPath = BasicEnvInfo.envPath r,
       CompositeEnvInfo.kind = [BasicEnvInfo.kind r],
       CompositeEnvInfo.extensionId = BasicEnvInfo.extensionId r,
       source = Some [BasicEnvInfo.extensionId r] \<rparr>"

section \<open>The provider adapter: kinds and records\<close>

text \<open>
  \<open>convertKind\<close> is \<open>(source as unknown) as PythonEnvKind\<close>: a cast, which returns its
  argument. The argument is \<open>None\<close> when the caller read past the end of an array.
\<close>

definition convertKind :: "string option \<Rightarrow> PythonEnvKind" where
  "convertKind src = src"

text \<open>\<open>xs[0]\<close> in JavaScript: \<open>undefined\<close> on the empty array.\<close>

definition first_element :: "'a list \<Rightarrow> 'a option" where
  "first_element xs = (case xs of [] \<Rightarrow> None | x # _ \<Rightarrow> Some x)"

definition convertToBasicEnv :: "InternalEnvironmentProviderMetadata \<Rightarrow> EnvInfo \<Rightarrow> BasicEnvInfo" where
  "convertToBasicEnv metadata env =
     \<lparr> BasicEnvInfo.executablePath = EnvInfo.executablePath env,
       BasicEnvInfo.envPath = EnvInfo.envPath env,
       BasicEnvInfo.kind = convertKind (first_element (envSources env)),
       BasicEnvInfo.extensionId = InternalEnvironmentProviderMetadata.extensionId metadata \<rparr>"

section \<open>Library functions the reducer calls\<close>

text \<open>
  lodash \<open>union\<close>: the values of all the arrays, each once, in the order of their first
  occurrence.
\<close>

fun baseUniq :: "'a list \<Rightarrow> 'a list \<Rightarrow> 'a list" where
  "baseUniq acc [] = acc"
| "baseUniq acc (x # xs) = (if x \<in> set acc then baseUniq acc xs else baseUniq (acc @ [x]) xs)"

definition union_arrays :: "'a list list \<Rightarrow> 'a list" where
  "union_arrays arrays = baseUniq [] (concat arrays)"

text \<open>
  \<open>Array.prototype.sort\<close> with a comparison function: a stable sort, in place. An element
  is inserted before the first element it compares less than, so equal elements keep
  their order. \<open>undefined\<close> elements are moved to the end without being compared
  (\<open>array_sort\<close>). The order is the one every conforming engine produces when the
  comparison function is consistent.
\<close>

fun insert_by :: "('a \<Rightarrow> 'a \<Rightarrow> int) \<Rightarrow> 'a \<Rightarrow> 'a list \<Rightarrow> 'a list" where
  "insert_by cmp x [] = [x]"
| "insert_by cmp x (y # ys) = (if cmp x y < 0 then x # y # ys else y # insert_by cmp x ys)"

definition sort_by :: "('a \<Rightarrow> 'a \<Rightarrow> int) \<Rightarrow> 'a list \<Rightarrow> 'a list" where
  "sort_by cmp xs = foldl (\<lambda>acc x. insert_by cmp x acc) [] xs"

definition array_sort :: "('a option \<Rightarrow> 'a option \<Rightarrow> int) \<Rightarrow> 'a option list \<Rightarrow> 'a option list" where
  "array_sort cmp xs = sort_by cmp (filter (\<lambda>x. x \<noteq> None) xs) @ filter (\<lambda>x. x = None) xs"

section \<open>Collision resolution\<close>

text \<open>
  \<open>sortKindFunction\<close> and \<open>sortExtensionSource\<close> (\<open>base/info/envKind\<close>) are not among the
  source files: they are parameters of every function that calls them.

  \<open>getTopKind\<close> is \<open>kinds.sort(sortKindFunction)[0]\<close>. The sort is in place: the array of
  the record it was called for is reordered (\<open>sortKindsInPlace\<close>).
\<close>

definition getTopKind :: "(PythonEnvKind \<Rightarrow> PythonEnvKind \<Rightarrow> int) \<Rightarrow> PythonEnvKind list \<Rightarrow> PythonEnvKind" where
  "getTopKind sortKindFunction kinds =
     (case array_sort sortKindFunction kinds of [] \<Rightarrow> None | k # _ \<Rightarrow> k)"

definition sortKindsInPlace :: "(PythonEnvKind \<Rightarrow> PythonEnvKind \<Rightarrow> int) \<Rightarrow> CompositeEnvInfo \<Rightarrow> CompositeEnvInfo" where
  "sortKindsInPlace sortKindFunction env =
     env\<lparr> CompositeEnvInfo.kind := array_sort sortKindFunction (CompositeEnvInfo.kind env) \<rparr>"

text \<open>The comparison function of \<open>sortEnvInfoByPriority\<close>.\<close>

definition priorityCompare ::
  "(PythonEnvKind \<Rightarrow> PythonEnvKind \<Rightarrow> int) \<Rightarrow> (string \<Rightarrow> string \<Rightarrow> int) \<Rightarrow>
   CompositeEnvInfo \<Rightarrow> CompositeEnvInfo \<Rightarrow> int" where
  "priorityCompare sortKindFunction sortExtensionSource a b =
     (let kindDiff = sortKindFunction (getTopKind sortKindFunction (CompositeEnvInfo.kind a))
                                      (getTopKind sortKindFunction (CompositeEnvInfo.kind b))
      in if kindDiff \<noteq> 0 then kindDiff
         else sortExtensionSource (CompositeEnvInfo.extensionId a) (CompositeEnvInfo.extensionId b))"

text \<open>
  \<open>sortEnvInfoByPriority(oldEnv, newEnv)\<close>: the rest parameter is a fresh array of the two
  records, sorted by \<open>priorityCompare\<close>. The sort compares the second record with the
  first and moves it to the front when it compares less; the comparison has sorted the
  kinds of both records in place. The result holds the two records as they are after
  the call.
\<close>

definition sortEnvInfoByPriority ::
  "(PythonEnvKind \<Rightarrow> PythonEnvKind \<Rightarrow> int) \<Rightarrow> (string \<Rightarrow> string \<Rightarrow> int) \<Rightarrow>
   CompositeEnvInfo \<Rightarrow> CompositeEnvInfo \<Rightarrow> CompositeEnvInfo list" where
  "sortEnvInfoByPriority sortKindFunction sortExtensionSource oldEnv newEnv =
     (let oldEnv' = sortKindsInPlace sortKindFunction oldEnv;
          newEnv' = sortKindsInPlace sortKindFunction newEnv
      in if priorityCompare sortKindFunction sortExtensionSource newEnv oldEnv < 0
         then [newEnv', oldEnv'] else [oldEnv', newEnv'])"

definition source_or_empty :: "CompositeEnvInfo \<Rightarrow> string list" where
  "source_or_empty env = (case source env of None \<Rightarrow> [] | Some s \<Rightarrow> s)"

text \<open>
  \<open>resolveEnvCollision\<close> returns the merged record; the model returns with it the two
  operands as the call leaves them. \<open>cloneDeep\<close> copies the value of the chosen record.
\<close>

definition resolveEnvCollision ::
  "(PythonEnvKind \<Rightarrow> PythonEnvKind \<Rightarrow> int) \<Rightarrow> (string \<Rightarrow> string \<Rightarrow> int) \<Rightarrow>
   CompositeEnvInfo \<Rightarrow> CompositeEnvInfo \<Rightarrow> CompositeEnvInfo \<times> CompositeEnvInfo \<times> CompositeEnvInfo" where
  "resolveEnvCollision sortKindFunction sortExtensionSource oldEnv newEnv =
     (let env = hd (sortEnvInfoByPriority sortKindFunction sortExtensionSource oldEnv newEnv);
          oldEnv' = sortKindsInPlace sortKindFunction oldEnv;
          newEnv' = sortKindsInPlace sortKindFunction newEnv;
          merged = env;
          merged = merged\<lparr> source := Some (union_arrays [source_or_empty oldEnv', source_or_empty newEnv']) \<rparr>;
          merged = merged\<lparr> CompositeEnvInfo.kind :=
                     union_arrays [CompositeEnvInfo.kind merged, CompositeEnvInfo.kind oldEnv',
                                   CompositeEnvInfo.kind newEnv'] \<rparr>
      in (merged, oldEnv', newEnv'))"

definition merged_of :: "CompositeEnvInfo \<times> CompositeEnvInfo \<times> CompositeEnvInfo \<Rightarrow> CompositeEnvInfo" where
  "merged_of r = fst r"

section \<open>The iteration protocol\<close>

text \<open>
  Modelled from the spec: the declarations of \<open>ProgressReportStage\<close>,
  \<open>ProgressNotificationEvent\<close>, \<open>PythonEnvUpdatedEvent\<close> and \<open>isProgressEvent\<close>
  (\<open>base/locator\<close>) are not among the source files. The spec: a progress event is
  \<open>{stage: Started | Finished}\<close>, an update event is \<open>{index, old, update}\<close>, in which \<open>old\<close>
  and \<open>update\<close> may be \<open>undefined\<close>. \<open>converter.ts\<close> names the stages \<open>discoveryStarted\<close> and
  \<open>discoveryFinished\<close> and reads the fields \<open>stage\<close>, \<open>index\<close>, \<open>old\<close> and \<open>update\<close>.
  \<open>isProgressEvent\<close> is the test for the first constructor.
\<close>

datatype ProgressReportStage = discoveryStarted | discoveryFinished

datatype 'a envEvent =
    ProgressNotificationEvent ProgressReportStage
  | PythonEnvUpdatedEvent int "'a option" "'a option"

datatype error = UndefinedUpdateNotSupported

text \<open>The line \<open>traceVerbose\<close> writes for an update whose index has no buffer entry.\<close>

datatype trace = ExpectedAlreadyIteratedEnv int

text \<open>
  What one stage owns while its generator runs: the completion state (\<open>state.done\<close>,
  \<open>state.pending\<close>), the buffer \<open>seen\<close>, the value the generator is suspended on at
  \<open>yield currEnv\<close> (yielded, not yet pushed to the buffer), whether its listener is still
  subscribed to the upstream notification source, its own emitter \<open>didUpdate\<close>
  (disposed or not, and the events it has delivered so far), the values yielded on the
  primary sequence, the lines logged, and the errors its listener has thrown to the
  emitter that called it.
\<close>

record 'a stage =
  done_flag :: bool
  pending :: int
  seen :: "'a list"
  suspended :: "'a option"
  listening :: bool
  disposed :: bool
  fired :: "'a envEvent list"
  yielded :: "'a list"
  traced :: "trace list"
  raised :: "error list"

text \<open>
  \<open>EventEmitter\<close> of the editor API: \<open>fire\<close> delivers the event to the subscribers;
  after \<open>dispose\<close> nothing is delivered any more.
\<close>

definition fire :: "'a stage \<Rightarrow> 'a envEvent \<Rightarrow> 'a stage" where
  "fire s e = (if disposed s then s else s\<lparr> fired := fired s @ [e] \<rparr>)"

definition dispose :: "'a stage \<Rightarrow> 'a stage" where
  "dispose s = s\<lparr> disposed := True \<rparr>"

text \<open>\<open>checkIfFinishedAndNotify\<close>: the same text in the adapter and in the reducer.\<close>

definition checkIfFinishedAndNotify :: "'a stage \<Rightarrow> 'a stage" where
  "checkIfFinishedAndNotify s =
     (if done_flag s \<and> pending s = 0
      then dispose (fire s (ProgressNotificationEvent discoveryFinished))
      else s)"

text \<open>\<open>seen[index]\<close>: \<open>undefined\<close> when the index is not a position of the array.\<close>

definition array_get :: "'a list \<Rightarrow> int \<Rightarrow> 'a option" where
  "array_get xs i = (if 0 \<le> i \<and> i < int (length xs) then Some (xs ! nat i) else None)"

text \<open>
  The listener each stage subscribes to the upstream notification source. The adapter
  and the reducer have the same text but for the conversion of the update
  (\<open>convertToBasicEnv\<close>, \<open>convertBasicToComposite\<close>), the parameter \<open>conv\<close>. \<open>Inl\<close> is the
  \<open>throw\<close>: the error, and the state the listener leaves behind, in which the counter
  has been incremented and not decremented. \<open>Inr\<close> is the state when the listener
  returns.
\<close>

definition onUpdated_listener ::
  "('r \<Rightarrow> 'a) \<Rightarrow> 'a stage \<Rightarrow> 'r envEvent \<Rightarrow> (error \<times> 'a stage) + 'a stage" where
  "onUpdated_listener conv s0 event =
     (let s = s0\<lparr> pending := pending s0 + 1 \<rparr> in
      case event of
        ProgressNotificationEvent stg \<Rightarrow>
          (let s = (if stg = discoveryFinished
                    then s\<lparr> done_flag := True, listening := False \<rparr>
                    else fire s (ProgressNotificationEvent stg));
               s = s\<lparr> pending := pending s - 1 \<rparr>
           in Inr (checkIfFinishedAndNotify s))
      | PythonEnvUpdatedEvent i old upd \<Rightarrow>
          (case upd of
             None \<Rightarrow> Inl (UndefinedUpdateNotSupported, s)
           | Some u \<Rightarrow>
               (let s = (case array_get (seen s) i of
                           Some oldEnv \<Rightarrow>
                             fire (s\<lparr> seen := (seen s)[nat i := conv u] \<rparr>)
                                  (PythonEnvUpdatedEvent i (Some oldEnv) (Some (conv u)))
                         | None \<Rightarrow> s\<lparr> traced := traced s @ [ExpectedAlreadyIteratedEnv i] \<rparr>);
                    s = s\<lparr> pending := pending s - 1 \<rparr>
                in Inr (checkIfFinishedAndNotify s))))"

text \<open>
  What happens next to a stage, as the stage sees it:
  \<^item> \<open>Next r\<close>: the primary sequence of the upstream stream produces the record \<open>r\<close>,
    that is, the \<open>await iterator.next()\<close> of the stage returns it. The stage calls
    \<open>iterator.next()\<close> only when it runs, so its consumer has pulled before: if the
    stage was suspended at \<open>yield\<close>, it has resumed;
  \<^item> \<open>Notify e\<close>: the upstream notification source delivers the event \<open>e\<close>;
  \<^item> \<open>Pull\<close>: the consumer of the stage calls \<open>next()\<close>; a stage suspended at \<open>yield\<close>
    resumes, runs \<open>seen.push(currEnv)\<close> and waits for the upstream stream.
  The code between two suspension points and the body of the listener run to
  completion, so what a stage does is decided by the sequence of these items.
\<close>

datatype 'r upstream = Next 'r | Notify "'r envEvent" | Pull

text \<open>
  The stage when the body of its generator has run up to the first
  \<open>await iterator.next()\<close>: the listener is subscribed if the upstream stream has a
  notification source, and \<open>discoveryStarted\<close> has been delivered if it has none.
\<close>

definition initial_stage :: "bool \<Rightarrow> 'a stage" where
  "initial_stage hasOnUpdated =
     (let s = \<lparr> done_flag = False, pending = 0, seen = [], suspended = None,
                listening = hasOnUpdated, disposed = False, fired = [], yielded = [],
                traced = [], raised = [] \<rparr>
      in if hasOnUpdated then s else fire s (ProgressNotificationEvent discoveryStarted))"

text \<open>The generator resumes after \<open>yield currEnv\<close>: \<open>seen.push(currEnv)\<close>.\<close>

definition resume :: "'a stage \<Rightarrow> 'a stage" where
  "resume s =
     (case suspended s of
        None \<Rightarrow> s
      | Some currEnv \<Rightarrow> s\<lparr> seen := seen s @ [currEnv], suspended := None \<rparr>)"

text \<open>
  One item. An error the listener throws goes to the emitter that called the listener:
  the generator of the stage is not on that call stack, and the run of the stage goes
  on from the state the listener has left.
\<close>

definition stage_step ::
  "('a stage \<Rightarrow> 'r envEvent \<Rightarrow> (error \<times> 'a stage) + 'a stage) \<Rightarrow>
   ('a stage \<Rightarrow> 'r \<Rightarrow> 'a stage) \<Rightarrow> 'a stage \<Rightarrow> 'r upstream \<Rightarrow> 'a stage" where
  "stage_step listener loop_body s item =
     (case item of
        Next r \<Rightarrow> loop_body (resume s) r
      | Pull \<Rightarrow> resume s
      | Notify e \<Rightarrow>
          if listening s
          then (case listener s e of
                  Inl (err, s') \<Rightarrow> s'\<lparr> raised := raised s' @ [err] \<rparr>
                | Inr s' \<Rightarrow> s')
          else s)"

fun stage_steps ::
  "('a stage \<Rightarrow> 'r envEvent \<Rightarrow> (error \<times> 'a stage) + 'a stage) \<Rightarrow>
   ('a stage \<Rightarrow> 'r \<Rightarrow> 'a stage) \<Rightarrow> 'a stage \<Rightarrow> 'r upstream list \<Rightarrow> 'a stage" where
  "stage_steps listener loop_body s [] = s"
| "stage_steps listener loop_body s (item # items) =
     stage_steps listener loop_body (stage_step listener loop_body s item) items"

text \<open>The state of a stage after the items, the upstream stream not yet exhausted.\<close>

definition stage_after ::
  "('a stage \<Rightarrow> 'r envEvent \<Rightarrow> (error \<times> 'a stage) + 'a stage) \<Rightarrow>
   ('a stage \<Rightarrow> 'r \<Rightarrow> 'a stage) \<Rightarrow> bool \<Rightarrow> 'r upstream list \<Rightarrow> 'a stage" where
  "stage_after listener loop_body hasOnUpdated items =
     stage_steps listener loop_body (initial_stage hasOnUpdated) items"

text \<open>After the loop: \<open>if (iterator.onUpdated === undefined) { state.done = true; ... }\<close>.\<close>

definition after_loop :: "bool \<Rightarrow> 'a stage \<Rightarrow> 'a stage" where
  "after_loop hasOnUpdated s =
     (if \<not> hasOnUpdated then checkIfFinishedAndNotify (s\<lparr> done_flag := True \<rparr>) else s)"

text \<open>
  A run to the end: the items, then the upstream stream is exhausted. The stage learns
  it from \<open>iterator.next()\<close>, so it has resumed from its last \<open>yield\<close>.
\<close>

definition stage_run ::
  "('a stage \<Rightarrow> 'r envEvent \<Rightarrow> (error \<times> 'a stage) + 'a stage) \<Rightarrow>
   ('a stage \<Rightarrow> 'r \<Rightarrow> 'a stage) \<Rightarrow> bool \<Rightarrow> 'r upstream list \<Rightarrow> 'a stage" where
  "stage_run listener loop_body hasOnUpdated items =
     after_loop hasOnUpdated (resume (stage_after listener loop_body hasOnUpdated items))"

section \<open>The provider adapter: the stream\<close>

text \<open>
  The body of the \<open>while\<close> loop of \<open>ConvertLocator.iterEnvsIterator\<close>, up to the
  suspension at \<open>yield currEnv\<close>.
\<close>

definition ConvertLocator_loop_body ::
  "InternalEnvironmentProviderMetadata \<Rightarrow> BasicEnvInfo stage \<Rightarrow> EnvInfo \<Rightarrow> BasicEnvInfo stage" where
  "ConvertLocator_loop_body metadata s r =
     (let currEnv = convertToBasicEnv metadata r
      in s\<lparr> yielded := yielded s @ [currEnv], suspended := Some currEnv \<rparr>)"

definition ConvertLocator_after ::
  "InternalEnvironmentProviderMetadata \<Rightarrow> bool \<Rightarrow> EnvInfo upstream list \<Rightarrow> BasicEnvInfo stage" where
  "ConvertLocator_after metadata hasOnUpdated items =
     stage_after (onUpdated_listener (convertToBasicEnv metadata))
                 (ConvertLocator_loop_body metadata) hasOnUpdated items"

definition ConvertLocator_iterEnvsIterator ::
  "InternalEnvironmentProviderMetadata \<Rightarrow> bool \<Rightarrow> EnvInfo upstream list \<Rightarrow> BasicEnvInfo stage" where
  "ConvertLocator_iterEnvsIterator metadata hasOnUpdated items =
     stage_run (onUpdated_listener (convertToBasicEnv metadata))
               (ConvertLocator_loop_body metadata) hasOnUpdated items"

section \<open>The reducer: the stream\<close>

text \<open>\<open>Array.prototype.findIndex\<close>; \<open>None\<close> is the result -1.\<close>

fun findIndex :: "('a \<Rightarrow> bool) \<Rightarrow> 'a list \<Rightarrow> nat option" where
  "findIndex P [] = None"
| "findIndex P (x # xs) = (if P x then Some 0 else map_option Suc (findIndex P xs))"

text \<open>
  \<open>resolveDifferencesInBackground\<close> has no \<open>await\<close>: its body runs when it is called.
  \<open>oldEnv\<close> is the object in the buffer, so the in-place sort of its kinds by
  \<open>resolveEnvCollision\<close> shows in the buffer whether or not the entry is replaced, and
  \<open>isEqual\<close> compares the object as the sort left it. Were \<open>oldIndex\<close> not a position of
  the buffer, \<open>resolveEnvCollision\<close> would fail on \<open>undefined\<close> and \<open>ignoreErrors\<close> would
  drop the failure, the counter left incremented.
\<close>

definition resolveDifferencesInBackground ::
  "(PythonEnvKind \<Rightarrow> PythonEnvKind \<Rightarrow> int) \<Rightarrow> (string \<Rightarrow> string \<Rightarrow> int) \<Rightarrow>
   nat \<Rightarrow> CompositeEnvInfo \<Rightarrow> CompositeEnvInfo stage \<Rightarrow> CompositeEnvInfo stage" where
  "resolveDifferencesInBackground sortKindFunction sortExtensionSource oldIndex newEnv s0 =
     (let s = s0\<lparr> pending := pending s0 + 1 \<rparr> in
      case array_get (seen s) (int oldIndex) of
        None \<Rightarrow> s
      | Some oldEnv \<Rightarrow>
          (case resolveEnvCollision sortKindFunction sortExtensionSource oldEnv newEnv of
             (merged, oldEnv', newEnv') \<Rightarrow>
               (let s = s\<lparr> seen := (seen s)[oldIndex := oldEnv'] \<rparr>;
                    s = (if oldEnv' \<noteq> merged
                         then fire (s\<lparr> seen := (seen s)[oldIndex := merged] \<rparr>)
                                (PythonEnvUpdatedEvent (int oldIndex) (Some oldEnv') (Some merged))
                         else s);
                    s = s\<lparr> pending := pending s - 1 \<rparr>
                in checkIfFinishedAndNotify s)))"

text \<open>
  The body of the \<open>while\<close> loop of the reducer's \<open>iterEnvsIterator\<close>, up to the
  suspension at \<open>yield currEnv\<close> or, for a record that matches a buffer entry, up to the
  next \<open>await iterator.next()\<close>.
\<close>

definition reducer_loop_body ::
  "(PythonEnvKind \<Rightarrow> PythonEnvKind \<Rightarrow> int) \<Rightarrow> (string \<Rightarrow> string \<Rightarrow> int) \<Rightarrow>
   CompositeEnvInfo stage \<Rightarrow> BasicEnvInfo \<Rightarrow> CompositeEnvInfo stage" where
  "reducer_loop_body sortKindFunction sortExtensionSource s r =
     (let currEnv = convertBasicToComposite r in
      case findIndex (\<lambda>e. areSameEnv e currEnv) (seen s) of
        Some oldIndex \<Rightarrow>
          resolveDifferencesInBackground sortKindFunction sortExtensionSource oldIndex currEnv s
      | None \<Rightarrow> s\<lparr> yielded := yielded s @ [currEnv], suspended := Some currEnv \<rparr>)"

definition reducer_after ::
  "(PythonEnvKind \<Rightarrow> PythonEnvKind \<Rightarrow> int) \<Rightarrow> (string \<Rightarrow> string \<Rightarrow> int) \<Rightarrow>
   bool \<Rightarrow> BasicEnvInfo upstream list \<Rightarrow> CompositeEnvInfo stage" where
  "reducer_after sortKindFunction sortExtensionSource hasOnUpdated items =
     stage_after (onUpdated_listener convertBasicToComposite)
                 (reducer_loop_body sortKindFunction sortExtensionSource) hasOnUpdated items"

definition iterEnvsIterator ::
  "(PythonEnvKind \<Rightarrow> PythonEnvKind \<Rightarrow> int) \<Rightarrow> (string \<Rightarrow> string \<Rightarrow> int) \<Rightarrow>
   bool \<Rightarrow> BasicEnvInfo upstream list \<Rightarrow> CompositeEnvInfo stage" where
  "iterEnvsIterator sortKindFunction sortExtensionSource hasOnUpdated items =
     stage_run (onUpdated_listener convertBasicToComposite)
               (reducer_loop_body sortKindFunction sortExtensionSource) hasOnUpdated items"

section \<open>Notions the statements use\<close>

text \<open>The records of the primary sequence of an upstream stream, and its update events.\<close>

fun upstream_records :: "'r upstream list \<Rightarrow> 'r list" where
  "upstream_records [] = []"
| "upstream_records (Next r # items) = r # upstream_records items"
| "upstream_records (Notify e # items) = upstream_records items"
| "upstream_records (Pull # items) = upstream_records items"

fun is_update :: "'r upstream \<Rightarrow> bool" where
  "is_update (Notify (PythonEnvUpdatedEvent i old upd)) = True"
| "is_update (Notify (ProgressNotificationEvent stg)) = False"
| "is_update (Next r) = False"
| "is_update Pull = False"

text \<open>
  The records of an upstream sequence whose identity is observed for the first time, in
  the order of the sequence; \<open>ids\<close> are the identities observed before.
\<close>

fun first_observed_from :: "(string \<times> string) list \<Rightarrow> BasicEnvInfo list \<Rightarrow> BasicEnvInfo list" where
  "first_observed_from ids [] = []"
| "first_observed_from ids (r # rs) =
     (if basicIdentity r \<in> set ids then first_observed_from ids rs
      else r # first_observed_from (ids @ [basicIdentity r]) rs)"

definition first_observed :: "BasicEnvInfo list \<Rightarrow> BasicEnvInfo list" where
  "first_observed rs = first_observed_from [] rs"

text \<open>
  Whether an update event with \<open>update === undefined\<close> reaches the subscribed listener:
  it does when it comes before the first \<open>discoveryFinished\<close> of the upstream source,
  which ends the subscription.
\<close>

fun undefined_update_reaches_listener :: "'r upstream list \<Rightarrow> bool" where
  "undefined_update_reaches_listener [] = False"
| "undefined_update_reaches_listener (Next r # items) = undefined_update_reaches_listener items"
| "undefined_update_reaches_listener (Pull # items) = undefined_update_reaches_listener items"
| "undefined_update_reaches_listener (Notify (ProgressNotificationEvent stg) # items) =
     (if stg = discoveryFinished then False else undefined_update_reaches_listener items)"
| "undefined_update_reaches_listener (Notify (PythonEnvUpdatedEvent i old upd) # items) =
     (case upd of None \<Rightarrow> True | Some u \<Rightarrow> undefined_update_reaches_listener items)"

text \<open>Two values compare equal under a comparison function.\<close>

definition compare_equal :: "('a \<Rightarrow> 'a \<Rightarrow> int) \<Rightarrow> 'a \<Rightarrow> 'a \<Rightarrow> bool" where
  "compare_equal cmp x y \<longleftrightarrow> cmp x y = 0 \<and> cmp y x = 0"

text \<open>A state without its log, to compare two runs that differ in what they logged.\<close>

definition without_trace :: "'a stage \<Rightarrow> 'a stage" where
  "without_trace s = s\<lparr> traced := [] \<rparr>"

definition ignores_trace :: "('a stage \<Rightarrow> 'r \<Rightarrow> 'a stage) \<Rightarrow> bool" where
  "ignores_trace loop_body \<longleftrightarrow>
     (\<forall>s r l. loop_body (s\<lparr> traced := l \<rparr>) r = (loop_body s r)\<lparr> traced := l \<rparr>)"

definition finished_event :: "'a envEvent" where
  "finished_event = ProgressNotificationEvent discoveryFinished"

text \<open>
  What holds of the completion state between two items of a run: the units of work
  in flight are the listener calls that have thrown; the emitter is disposed exactly
  when the stage is done and no call has thrown; the finished event has been delivered
  once if the emitter is disposed and never if it is not, and then it is the last
  event delivered; a subscribed listener means the stage is not done.
\<close>

definition settled :: "'a stage \<Rightarrow> bool" where
  "settled s \<longleftrightarrow>
     pending s = int (length (raised s)) \<and>
     disposed s = (done_flag s \<and> raised s = []) \<and>
     count_list (fired s) finished_event = (if disposed s then 1 else 0) \<and>
     (disposed s \<longrightarrow> fired s \<noteq> [] \<and> last (fired s) = finished_event) \<and>
     (listening s \<longrightarrow> \<not> done_flag s)"

definition keeps_settled :: "('a stage \<Rightarrow> 'r \<Rightarrow> 'a stage) \<Rightarrow> bool" where
  "keeps_settled loop_body \<longleftrightarrow> (\<forall>s r. settled s \<longrightarrow> settled (loop_body (resume s) r))"

text \<open>
  A loop body that leaves the completion flag, the subscription and the errors thrown
  as they are.
\<close>

definition keeps_subscription :: "('a stage \<Rightarrow> 'r \<Rightarrow> 'a stage) \<Rightarrow> bool" where
  "keeps_subscription loop_body \<longleftrightarrow>
     (\<forall>s r. listening (loop_body s r) = listening s \<and> done_flag (loop_body s r) = done_flag s
           \<and> raised (loop_body s r) = raised s)"

section \<open>Example orders, records and streams\<close>

text \<open>
  An order of kinds and an order of providers to run the functions on: the kind that
  stands earlier in \<open>kind_priority\<close> is preferred, a kind not in the list comes last, and
  providers compare by the length of their identifier.
\<close>

definition kind_priority :: "PythonEnvKind list" where
  "kind_priority = [Conda, Venv, System, Unknown]"

fun position_in :: "'a list \<Rightarrow> 'a \<Rightarrow> nat" where
  "position_in [] k = 0"
| "position_in (x # xs) k = (if x = k then 0 else Suc (position_in xs k))"

definition rank_kinds :: "PythonEnvKind \<Rightarrow> PythonEnvKind \<Rightarrow> int" where
  "rank_kinds a b = int (position_in kind_priority a) - int (position_in kind_priority b)"

definition rank_providers :: "string \<Rightarrow> string \<Rightarrow> int" where
  "rank_providers a b = int (length a) - int (length b)"

definition python39_by_A :: BasicEnvInfo where
  "python39_by_A =
     \<lparr> BasicEnvInfo.executablePath = ''/usr/bin/python3.9'', BasicEnvInfo.envPath = '''',
       BasicEnvInfo.kind = Venv, BasicEnvInfo.extensionId = ''producerA'' \<rparr>"

definition python39_by_B :: BasicEnvInfo where
  "python39_by_B =
     \<lparr> BasicEnvInfo.executablePath = ''/usr/bin/python3.9'', BasicEnvInfo.envPath = '''',
       BasicEnvInfo.kind = System, BasicEnvInfo.extensionId = ''producerB'' \<rparr>"

definition python27_by_A :: BasicEnvInfo where
  "python27_by_A =
     \<lparr> BasicEnvInfo.executablePath = ''/usr/bin/python2.7'', BasicEnvInfo.envPath = '''',
       BasicEnvInfo.kind = System, BasicEnvInfo.extensionId = ''producerA'' \<rparr>"

definition python39_venv_by_B :: CompositeEnvInfo where
  "python39_venv_by_B =
     \<lparr> CompositeEnvInfo.executablePath = ''/usr/bin/python3.9'', CompositeEnvInfo.envPath = '''',
       CompositeEnvInfo.kind = [Venv], CompositeEnvInfo.extensionId = ''producerB'',
       source = Some [''producerB''] \<rparr>"

definition python39_system_venv :: CompositeEnvInfo where
  "python39_system_venv =
     \<lparr> CompositeEnvInfo.executablePath = ''/usr/bin/python3.9'', CompositeEnvInfo.envPath = '''',
       CompositeEnvInfo.kind = [System, Venv], CompositeEnvInfo.extensionId = ''producerA'',
       source = Some [''producerA''] \<rparr>"

definition external_python39 :: EnvInfo where
  "external_python39 =
     \<lparr> EnvInfo.executablePath = ''/usr/bin/python3.9'', EnvInfo.envPath = '''',
       envSources = [''virt-venv'', ''global''] \<rparr>"

definition external_by_tool :: EnvInfo where
  "external_by_tool =
     \<lparr> EnvInfo.executablePath = ''/opt/tool/python'', EnvInfo.envPath = ''/opt/tool'',
       envSources = [''my-tool''] \<rparr>"

definition metadata_A :: InternalEnvironmentProviderMetadata where
  "metadata_A = \<lparr> InternalEnvironmentProviderMetadata.extensionId = ''producerA'',
                  envKinds = [Unknown] \<rparr>"

text \<open>
  An upstream stream with a notification source: producer A and producer B report the
  same interpreter, producer A reports a second one and the first one again.
\<close>

definition two_producers :: "BasicEnvInfo upstream list" where
  "two_producers =
     [Notify (ProgressNotificationEvent discoveryStarted),
      Next python39_by_A, Next python39_by_B, Next python27_by_A, Next python39_by_A,
      Notify (ProgressNotificationEvent discoveryFinished)]"

definition three_distinct :: "BasicEnvInfo upstream list" where
  "three_distinct =
     [Next python39_by_A, Next python27_by_A,
      Next (python27_by_A\<lparr> BasicEnvInfo.envPath := ''/home/u/.venv'' \<rparr>)]"

text \<open>
  An upstream stream in which two indices collapse into one buffer entry of the
  reducer before the upstream source refines its record 1, and the update it sends.
\<close>

definition python39_refined_by_B :: BasicEnvInfo where
  "python39_refined_by_B = python39_by_B\<lparr> BasicEnvInfo.kind := Conda \<rparr>"

definition collapse_then_records :: "BasicEnvInfo upstream list" where
  "collapse_then_records = [Next python39_by_A, Next python39_by_B, Next python27_by_A]"

definition update_of_upstream_1 :: "BasicEnvInfo upstream" where
  "update_of_upstream_1 =
     Notify (PythonEnvUpdatedEvent 1 (Some python39_by_B) (Some python39_refined_by_B))"

definition python39_merged :: CompositeEnvInfo where
  "python39_merged = (convertBasicToComposite python39_by_A)
      \<lparr> source := Some [''producerA'', ''producerB''], CompositeEnvInfo.kind := [Venv, System] \<rparr>"

text \<open>
  The same stream when the consumer has pulled after the third record, so that the three
  records are in the buffer, the upstream source has sent its update, and producer A
  reports the second interpreter again.
\<close>

definition reported_again :: "BasicEnvInfo upstream list" where
  "reported_again =
     collapse_then_records @ [Pull, update_of_upstream_1, Next python27_by_A]"

text \<open>A fourth interpreter, and the end of a stream with a notification source.\<close>

definition python311_by_B :: BasicEnvInfo where
  "python311_by_B =
     \<lparr> BasicEnvInfo.executablePath = ''/usr/bin/python3.11'', BasicEnvInfo.envPath = [],
       BasicEnvInfo.kind = System, BasicEnvInfo.extensionId = ''producerB'' \<rparr>"

definition one_more_then_finished :: "BasicEnvInfo upstream list" where
  "one_more_then_finished = [Next python311_by_B, Notify finished_event]"

definition external_one_more_then_finished :: "EnvInfo upstream list" where
  "external_one_more_then_finished = [Next external_python39, Notify finished_event]"

text \<open>An external stream for the adapter, and what the adapter makes of its records.\<close>

definition external_stream :: "EnvInfo upstream list" where
  "external_stream = [Next external_python39, Next external_by_tool]"

definition basic_python39 :: BasicEnvInfo where
  "basic_python39 = convertToBasicEnv metadata_A external_python39"

definition basic_by_tool :: BasicEnvInfo where
  "basic_by_tool = convertToBasicEnv metadata_A external_by_tool"

text \<open>
  Three reports of one interpreter, of the kinds Conda, System and Venv: the third
  leaves the kinds of the buffer entry out of order.
\<close>

definition python39_conda_by_A :: BasicEnvInfo where
  "python39_conda_by_A = python39_by_A\<lparr> BasicEnvInfo.kind := Conda \<rparr>"

definition three_reports :: "BasicEnvInfo upstream list" where
  "three_reports = [Next python39_conda_by_A, Next python39_by_B, Next python39_by_A]"

section \<open>Unfolding the model on the examples\<close>

lemmas example_orders =
  Venv_def System_def Conda_def Unknown_def kind_priority_def rank_kinds_def rank_providers_def

lemmas run_defs = ConvertLocator_iterEnvsIterator_def ConvertLocator_after_def
  ConvertLocator_loop_body_def iterEnvsIterator_def reducer_after_def stage_run_def
  stage_after_def stage_step_def initial_stage_def after_loop_def resume_def
  onUpdated_listener_def reducer_loop_body_def resolveDifferencesInBackground_def
  resolveEnvCollision_def sortEnvInfoByPriority_def priorityCompare_def getTopKind_def
  sortKindsInPlace_def array_sort_def sort_by_def union_arrays_def source_or_empty_def
  array_get_def areSameEnv_def convertBasicToComposite_def fire_def dispose_def
  checkIfFinishedAndNotify_def finished_event_def Let_def

lemmas example_defs = python39_by_A_def python39_by_B_def python27_by_A_def python39_merged_def
  python39_refined_by_B_def python39_conda_by_A_def python39_system_venv_def
  python39_venv_by_B_def python311_by_B_def collapse_then_records_def update_of_upstream_1_def
  reported_again_def one_more_then_finished_def external_one_more_then_finished_def
  three_reports_def external_stream_def basic_python39_def basic_by_tool_def
  convertToBasicEnv_def convertKind_def first_element_def external_python39_def
  external_by_tool_def metadata_A_def two_producers_def three_distinct_def example_orders

section \<open>Facts about the library functions\<close>

lemma set_baseUniq: "set (baseUniq acc xs) = set acc \<union> set xs"
  by (induction xs arbitrary: acc) auto

lemma set_union_arrays: "set (union_arrays arrays) = \<Union> (set ` set arrays)"
  by (simp add: union_arrays_def set_baseUniq)

lemma set_insert_by: "set (insert_by cmp x ys) = insert x (set ys)"
  by (induction ys) auto

lemma set_foldl_insert_by: "set (foldl (\<lambda>acc x. insert_by cmp x acc) acc xs) = set acc \<union> set xs"
  by (induction xs arbitrary: acc) (auto simp: set_insert_by)

lemma set_sort_by: "set (sort_by cmp xs) = set xs"
  by (simp add: sort_by_def set_foldl_insert_by)

lemma set_array_sort: "set (array_sort cmp xs) = set xs"
  by (auto simp: array_sort_def set_sort_by)

section \<open>Collision resolution: the merged sets\<close>

lemma kind_sortKindsInPlace:
  "set (CompositeEnvInfo.kind (sortKindsInPlace f e)) = set (CompositeEnvInfo.kind e)"
  by (simp add: sortKindsInPlace_def set_array_sort)

lemma source_sortKindsInPlace: "source_or_empty (sortKindsInPlace f e) = source_or_empty e"
  by (simp add: sortKindsInPlace_def source_or_empty_def)

lemma hd_sortEnvInfoByPriority:
  "hd (sortEnvInfoByPriority f g a b) = sortKindsInPlace f a \<or>
   hd (sortEnvInfoByPriority f g a b) = sortKindsInPlace f b"
  by (simp add: sortEnvInfoByPriority_def Let_def)

lemma kind_merged:
  "set (CompositeEnvInfo.kind (merged_of (resolveEnvCollision f g a b))) =
     set (CompositeEnvInfo.kind a) \<union> set (CompositeEnvInfo.kind b)"
  using hd_sortEnvInfoByPriority [of f g a b]
  by (auto simp: resolveEnvCollision_def merged_of_def Let_def set_union_arrays
      kind_sortKindsInPlace)

lemma source_merged:
  "set (source_or_empty (merged_of (resolveEnvCollision f g a b))) =
     set (source_or_empty a) \<union> set (source_or_empty b)"
proof -
  have "source_or_empty (merged_of (resolveEnvCollision f g a b)) =
          union_arrays [source_or_empty (sortKindsInPlace f a),
                        source_or_empty (sortKindsInPlace f b)]"
    by (simp add: resolveEnvCollision_def merged_of_def Let_def source_or_empty_def)
  then show ?thesis
    by (simp add: set_union_arrays source_sortKindsInPlace)
qed

text \<open>
  C3. Whatever the two orders are, and for any two records \<open>a\<close> and \<open>b\<close> (so also for
  two of the same identity): \<open>resolveEnvCollision a b\<close> and \<open>resolveEnvCollision b a\<close> have
  the same set of kinds and the same set of sources, and \<open>resolveEnvCollision a a\<close> has
  the sets of kinds and of sources of \<open>a\<close>. The sets are those of the elements of the
  arrays, whatever their order; an absent \<open>source\<close> counts as the empty set.
\<close>

theorem resolveEnvCollision_sets_commute_idempotent:
  "set (CompositeEnvInfo.kind (merged_of (resolveEnvCollision f g a b))) =
     set (CompositeEnvInfo.kind (merged_of (resolveEnvCollision f g b a)))
   \<and> set (source_or_empty (merged_of (resolveEnvCollision f g a b))) =
     set (source_or_empty (merged_of (resolveEnvCollision f g b a)))
   \<and> set (CompositeEnvInfo.kind (merged_of (resolveEnvCollision f g a a))) =
     set (CompositeEnvInfo.kind a)
   \<and> set (source_or_empty (merged_of (resolveEnvCollision f g a a))) = set (source_or_empty a)"
  by (simp add: kind_merged source_merged Un_commute)

section \<open>Collision resolution: the base of the merge and the operands\<close>

text \<open>
  C10. When the two records tie on priority (their top kinds compare equal under
  \<open>sortKindFunction\<close> and their \<open>extensionId\<close>s compare equal under \<open>sortExtensionSource\<close>),
  the merged record is the old record with \<open>source\<close> and \<open>kind\<close> replaced by the unions:
  every other field is the old record's.
\<close>

theorem resolveEnvCollision_tie_keeps_old:
  assumes "compare_equal f (getTopKind f (CompositeEnvInfo.kind oldEnv))
                           (getTopKind f (CompositeEnvInfo.kind newEnv))"
      and "compare_equal g (CompositeEnvInfo.extensionId oldEnv) (CompositeEnvInfo.extensionId newEnv)"
  shows "merged_of (resolveEnvCollision f g oldEnv newEnv) =
           oldEnv\<lparr> source := Some (union_arrays [source_or_empty oldEnv, source_or_empty newEnv]),
                   CompositeEnvInfo.kind :=
                     union_arrays [array_sort f (CompositeEnvInfo.kind oldEnv),
                                   array_sort f (CompositeEnvInfo.kind oldEnv),
                                   array_sort f (CompositeEnvInfo.kind newEnv)] \<rparr>
       \<and> CompositeEnvInfo.executablePath (merged_of (resolveEnvCollision f g oldEnv newEnv)) =
           CompositeEnvInfo.executablePath oldEnv
       \<and> CompositeEnvInfo.envPath (merged_of (resolveEnvCollision f g oldEnv newEnv)) =
           CompositeEnvInfo.envPath oldEnv
       \<and> CompositeEnvInfo.extensionId (merged_of (resolveEnvCollision f g oldEnv newEnv)) =
           CompositeEnvInfo.extensionId oldEnv"
proof -
  have "priorityCompare f g newEnv oldEnv = 0"
    using assms by (simp add: priorityCompare_def compare_equal_def)
  then have "hd (sortEnvInfoByPriority f g oldEnv newEnv) = sortKindsInPlace f oldEnv"
    by (simp add: sortEnvInfoByPriority_def Let_def)
  then show ?thesis
    by (simp add: resolveEnvCollision_def merged_of_def Let_def sortKindsInPlace_def
        source_or_empty_def)
qed

theorem resolveEnvCollision_tie_keeps_old_witness:
  "compare_equal rank_kinds
     (getTopKind rank_kinds (CompositeEnvInfo.kind (convertBasicToComposite python39_by_A)))
     (getTopKind rank_kinds (CompositeEnvInfo.kind python39_venv_by_B))
   \<and> compare_equal rank_providers
       (CompositeEnvInfo.extensionId (convertBasicToComposite python39_by_A))
       (CompositeEnvInfo.extensionId python39_venv_by_B)
   \<and> CompositeEnvInfo.extensionId
        (merged_of (resolveEnvCollision rank_kinds rank_providers
                      (convertBasicToComposite python39_by_A) python39_venv_by_B)) = ''producerA''
   \<and> source (merged_of (resolveEnvCollision rank_kinds rank_providers
                      (convertBasicToComposite python39_by_A) python39_venv_by_B)) =
        Some [''producerA'', ''producerB'']"
proof -
  have k: "compare_equal rank_kinds
     (getTopKind rank_kinds (CompositeEnvInfo.kind (convertBasicToComposite python39_by_A)))
     (getTopKind rank_kinds (CompositeEnvInfo.kind python39_venv_by_B))"
    by (simp add: compare_equal_def getTopKind_def array_sort_def sort_by_def
        convertBasicToComposite_def python39_by_A_def python39_venv_by_B_def example_orders)
  have p: "compare_equal rank_providers
       (CompositeEnvInfo.extensionId (convertBasicToComposite python39_by_A))
       (CompositeEnvInfo.extensionId python39_venv_by_B)"
    by (simp add: compare_equal_def convertBasicToComposite_def python39_by_A_def
        python39_venv_by_B_def example_orders)
  show ?thesis
    using k p resolveEnvCollision_tie_keeps_old [OF k p]
    by (simp add: convertBasicToComposite_def python39_by_A_def python39_venv_by_B_def
        source_or_empty_def union_arrays_def)
qed

text \<open>
  C9. The operands do not always come back unchanged. With Venv preferred to System, an
  old record whose kinds are [System, Venv] is left with the kinds [Venv, System]: the
  in-place sort of \<open>getTopKind\<close> has reordered the array of the operand, before the copy
  is taken. The new record, of one kind, is unchanged. The reducer reaches such a call:
  after three reports of one interpreter its buffer entry, the record it has delivered
  as the update of its last event, has the kinds [Conda, System, Venv]; a fourth report
  leaves the entry with the kinds [Conda, Venv, System] and delivers no further event.
\<close>

theorem resolveEnvCollision_reorders_kinds_of_operand:
  "resolveEnvCollision rank_kinds rank_providers python39_system_venv
       (convertBasicToComposite python39_by_B) =
     (python39_system_venv\<lparr> CompositeEnvInfo.kind := [Venv, System],
                             source := Some [''producerA'', ''producerB''] \<rparr>,
      python39_system_venv\<lparr> CompositeEnvInfo.kind := [Venv, System] \<rparr>,
      convertBasicToComposite python39_by_B)
   \<and> python39_system_venv\<lparr> CompositeEnvInfo.kind := [Venv, System] \<rparr> \<noteq> python39_system_venv
   \<and> map CompositeEnvInfo.kind
         (seen (iterEnvsIterator rank_kinds rank_providers True three_reports)) =
       [[Conda, System, Venv]]
   \<and> map CompositeEnvInfo.kind
         (seen (iterEnvsIterator rank_kinds rank_providers True
                  (three_reports @ [Next python39_by_A]))) =
       [[Conda, Venv, System]]
   \<and> fired (iterEnvsIterator rank_kinds rank_providers True (three_reports @ [Next python39_by_A])) =
       fired (iterEnvsIterator rank_kinds rank_providers True three_reports)"
  by (simp add: run_defs example_defs)

section \<open>The emitter and the completion check, field by field\<close>

lemma fire_fields [simp]:
  "done_flag (fire s e) = done_flag s" "pending (fire s e) = pending s"
  "seen (fire s e) = seen s" "suspended (fire s e) = suspended s"
  "listening (fire s e) = listening s" "disposed (fire s e) = disposed s"
  "yielded (fire s e) = yielded s" "traced (fire s e) = traced s" "raised (fire s e) = raised s"
  by (simp_all add: fire_def)

lemma dispose_fields [simp]:
  "done_flag (dispose s) = done_flag s" "pending (dispose s) = pending s"
  "seen (dispose s) = seen s" "suspended (dispose s) = suspended s"
  "listening (dispose s) = listening s" "disposed (dispose s) = True"
  "yielded (dispose s) = yielded s" "traced (dispose s) = traced s"
  "fired (dispose s) = fired s" "raised (dispose s) = raised s"
  by (simp_all add: dispose_def)

lemma check_fields [simp]:
  "done_flag (checkIfFinishedAndNotify s) = done_flag s"
  "pending (checkIfFinishedAndNotify s) = pending s"
  "seen (checkIfFinishedAndNotify s) = seen s"
  "suspended (checkIfFinishedAndNotify s) = suspended s"
  "listening (checkIfFinishedAndNotify s) = listening s"
  "yielded (checkIfFinishedAndNotify s) = yielded s"
  "traced (checkIfFinishedAndNotify s) = traced s"
  "raised (checkIfFinishedAndNotify s) = raised s"
  by (simp_all add: checkIfFinishedAndNotify_def)

lemma check_not_done [simp]: "\<not> done_flag s \<Longrightarrow> checkIfFinishedAndNotify s = s"
  by (simp add: checkIfFinishedAndNotify_def)

lemma resume_fields [simp]:
  "done_flag (resume s) = done_flag s" "pending (resume s) = pending s"
  "suspended (resume s) = None" "listening (resume s) = listening s"
  "disposed (resume s) = disposed s" "fired (resume s) = fired s"
  "yielded (resume s) = yielded s" "traced (resume s) = traced s" "raised (resume s) = raised s"
  by (simp_all add: resume_def split: option.splits)

lemma resume_resume [simp]: "resume (resume s) = resume s"
  by (simp add: resume_def split: option.splits)

lemma after_loop_fields [simp]:
  "pending (after_loop b s) = pending s" "seen (after_loop b s) = seen s"
  "suspended (after_loop b s) = suspended s" "listening (after_loop b s) = listening s"
  "yielded (after_loop b s) = yielded s" "traced (after_loop b s) = traced s"
  "raised (after_loop b s) = raised s"
  by (simp_all add: after_loop_def)

lemma resolveDifferences_fields [simp]:
  "done_flag (resolveDifferencesInBackground f g n e s) = done_flag s"
  "listening (resolveDifferencesInBackground f g n e s) = listening s"
  "suspended (resolveDifferencesInBackground f g n e s) = suspended s"
  "yielded (resolveDifferencesInBackground f g n e s) = yielded s"
  "traced (resolveDifferencesInBackground f g n e s) = traced s"
  "raised (resolveDifferencesInBackground f g n e s) = raised s"
  by (simp_all add: resolveDifferencesInBackground_def Let_def split: option.splits prod.splits)

lemma reducer_keeps_subscription: "keeps_subscription (reducer_loop_body f g)"
  by (simp add: keeps_subscription_def reducer_loop_body_def Let_def split: option.splits)

lemma adapter_keeps_subscription: "keeps_subscription (ConvertLocator_loop_body m)"
  by (simp add: keeps_subscription_def ConvertLocator_loop_body_def Let_def)

section \<open>What the listener throws\<close>

lemma listener_throws:
  "onUpdated_listener conv s (PythonEnvUpdatedEvent i old None) =
     Inl (UndefinedUpdateNotSupported, s\<lparr> pending := pending s + 1 \<rparr>)"
  by (simp add: onUpdated_listener_def)

lemma listener_raises:
  "(\<exists>e. onUpdated_listener conv s event = Inl e) = (\<exists>i old. event = PythonEnvUpdatedEvent i old None)"
  by (auto simp: onUpdated_listener_def Let_def split: envEvent.splits option.splits)

lemma listener_listening:
  "onUpdated_listener conv s event = Inr t \<Longrightarrow>
   listening t = (listening s \<and> event \<noteq> finished_event) \<and> raised t = raised s"
  by (auto simp: onUpdated_listener_def Let_def finished_event_def
      split: envEvent.splits option.splits if_splits)

lemma step_raised:
  assumes "keeps_subscription body"
  shows "listening (stage_step (onUpdated_listener conv) body s item) =
           (listening s \<and> item \<noteq> Notify finished_event)
       \<and> (raised (stage_step (onUpdated_listener conv) body s item) = []) =
           (raised s = [] \<and> \<not> (listening s \<and> (\<exists>i old. item = Notify (PythonEnvUpdatedEvent i old None))))"
proof (cases item)
  case (Next r)
  with assms show ?thesis
    by (simp add: stage_step_def keeps_subscription_def)
next
  case Pull
  then show ?thesis
    by (simp add: stage_step_def)
next
  case (Notify ev)
  show ?thesis
  proof (cases "onUpdated_listener conv s ev")
    case (Inl e)
    then obtain i old where "ev = PythonEnvUpdatedEvent i old None"
      using listener_raises [of conv s ev] by blast
    with Notify show ?thesis
      by (simp add: stage_step_def listener_throws finished_event_def)
  next
    case (Inr t)
    then have "\<not> (\<exists>i old. ev = PythonEnvUpdatedEvent i old None)"
      using listener_raises [of conv s ev] by auto
    with Inr Notify listener_listening [OF Inr] show ?thesis
      by (auto simp: stage_step_def)
  qed
qed

lemma steps_raised:
  assumes "keeps_subscription body"
  shows "(raised (stage_steps (onUpdated_listener conv) body s items) = []) =
         (raised s = [] \<and> \<not> (listening s \<and> undefined_update_reaches_listener items))"
proof (induction items arbitrary: s)
  case Nil
  show ?case by simp
next
  case (Cons item items)
  note st = step_raised [OF assms, of conv s item]
  show ?case
  proof (cases item)
    case (Next r)
    with Cons [of "stage_step (onUpdated_listener conv) body s item"] st show ?thesis
      by simp
  next
    case Pull
    with Cons [of "stage_step (onUpdated_listener conv) body s item"] st show ?thesis
      by simp
  next
    case (Notify ev)
    show ?thesis
    proof (cases ev)
      case (ProgressNotificationEvent stg)
      with Notify Cons [of "stage_step (onUpdated_listener conv) body s item"] st show ?thesis
        by (auto simp: finished_event_def)
    next
      case (PythonEnvUpdatedEvent i old upd)
      with Notify Cons [of "stage_step (onUpdated_listener conv) body s item"] st show ?thesis
        by (cases upd) (auto simp: finished_event_def)
    qed
  qed
qed

lemma run_raised:
  assumes "keeps_subscription body"
  shows "(raised (stage_run (onUpdated_listener conv) body hasOnUpdated items) = []) =
         (\<not> (hasOnUpdated \<and> undefined_update_reaches_listener items))"
proof -
  have "listening (initial_stage hasOnUpdated :: 'a stage) = hasOnUpdated"
       "raised (initial_stage hasOnUpdated :: 'a stage) = []"
    by (simp_all add: initial_stage_def Let_def)
  then show ?thesis
    using steps_raised [OF assms, of conv "initial_stage hasOnUpdated" items]
    by (simp add: stage_run_def stage_after_def)
qed


section \<open>The provider adapter: kinds\<close>

text \<open>
  C6, as the spec states it, fails: the identifier \<open>my-tool\<close> is not a member of the
  enumeration, and \<open>convertKind\<close> returns it as it is, not \<open>Unknown\<close>; the converted record
  carries it as its kind.
\<close>

theorem convertKind_unrecognized_not_Unknown:
  "convertKind (Some ''my-tool'') \<noteq> Unknown
   \<and> convertKind (Some ''my-tool'') \<notin> set PythonEnvKind_members
   \<and> BasicEnvInfo.kind (convertToBasicEnv metadata_A external_by_tool) = Some ''my-tool''"
  by (simp add: convertKind_def PythonEnvKind_members_def example_orders convertToBasicEnv_def
      external_by_tool_def first_element_def)

text \<open>
  C6, amended. \<open>convertKind\<close> is total and returns the external identifier unchanged,
  recognized or not. The converted record takes the first declared kind of the external
  record and no other; with no declared kind at all its kind is \<open>undefined\<close>.
\<close>

theorem convertKind_is_cast_first_kind_only:
  "convertKind src = src
   \<and> BasicEnvInfo.kind (convertToBasicEnv metadata (env\<lparr> envSources := k # ks \<rparr>)) = Some k
   \<and> BasicEnvInfo.kind (convertToBasicEnv metadata (env\<lparr> envSources := [] \<rparr>)) = None"
  by (simp add: convertKind_def convertToBasicEnv_def first_element_def)

section \<open>The reducer: identities in the buffer\<close>

lemma findIndex_None: "(findIndex P xs = None) = (\<forall>x\<in>set xs. \<not> P x)"
  by (induction xs) auto

lemma findIndex_Some: "findIndex P xs = Some n \<Longrightarrow> n < length xs \<and> P (xs ! n)"
  by (induction xs arbitrary: n) (auto split: if_splits)

lemma identity_convert [simp]: "identity (convertBasicToComposite r) = basicIdentity r"
  by (simp add: identity_def basicIdentity_def convertBasicToComposite_def)

lemma areSameEnv_identity: "areSameEnv a b = (identity a = identity b)"
  by (auto simp: areSameEnv_def identity_def)

lemma identity_sortKindsInPlace [simp]: "identity (sortKindsInPlace f e) = identity e"
  by (simp add: identity_def sortKindsInPlace_def)

lemma identity_resolve:
  assumes "identity a = identity b"
  shows "identity (fst (resolveEnvCollision f g a b)) = identity a"
    and "identity (fst (snd (resolveEnvCollision f g a b))) = identity a"
proof -
  have "identity (hd (sortEnvInfoByPriority f g a b)) = identity a"
    using hd_sortEnvInfoByPriority [of f g a b] assms by auto
  then show "identity (fst (resolveEnvCollision f g a b)) = identity a"
    by (simp add: resolveEnvCollision_def Let_def identity_def)
  show "identity (fst (snd (resolveEnvCollision f g a b))) = identity a"
    by (simp add: resolveEnvCollision_def Let_def)
qed

lemma map_identity_update:
  "n < length xs \<Longrightarrow> identity y = identity (xs ! n) \<Longrightarrow> map identity (xs[n := y]) = map identity xs"
  by (simp add: map_update list_update_same_conv)

lemma resolveDifferences_identities:
  assumes "n < length (seen s)" and "identity e = identity (seen s ! n)"
  shows "map identity (seen (resolveDifferencesInBackground f g n e s)) = map identity (seen s)"
proof -
  obtain m a b where r: "resolveEnvCollision f g (seen s ! n) e = (m, a, b)"
    by (cases "resolveEnvCollision f g (seen s ! n) e") auto
  have im: "identity m = identity (seen s ! n)" and ia: "identity a = identity (seen s ! n)"
    using identity_resolve [of "seen s ! n" e f g] assms r by simp_all
  show ?thesis
    using assms r im ia
    by (simp add: resolveDifferencesInBackground_def array_get_def Let_def map_identity_update)
qed

lemma reducer_body_seen:
  assumes "suspended s = None"
  shows "map identity (seen (resume (reducer_loop_body f g s r))) =
     (if basicIdentity r \<in> set (map identity (seen s)) then map identity (seen s)
      else map identity (seen s) @ [basicIdentity r])"
proof (cases "findIndex (\<lambda>e. areSameEnv e (convertBasicToComposite r)) (seen s)")
  case None
  then have "basicIdentity r \<notin> set (map identity (seen s))"
    by (auto simp: findIndex_None areSameEnv_identity)
  with None show ?thesis
    by (simp add: reducer_loop_body_def Let_def resume_def)
next
  case (Some n)
  then have n: "n < length (seen s)" and i: "identity (seen s ! n) = basicIdentity r"
    using findIndex_Some [OF Some] by (simp_all add: areSameEnv_identity)
  then have "basicIdentity r \<in> set (map identity (seen s))"
    by (metis length_map nth_map nth_mem)
  moreover have "resume (resolveDifferencesInBackground f g n (convertBasicToComposite r) s) =
                 resolveDifferencesInBackground f g n (convertBasicToComposite r) s"
    using assms by (simp add: resume_def)
  ultimately show ?thesis
    using Some n i by (simp add: reducer_loop_body_def Let_def resolveDifferences_identities)
qed

lemma reducer_body_yielded:
  "yielded (reducer_loop_body f g s r) =
     (if basicIdentity r \<in> set (map identity (seen s)) then yielded s
      else yielded s @ [convertBasicToComposite r])"
proof (cases "findIndex (\<lambda>e. areSameEnv e (convertBasicToComposite r)) (seen s)")
  case None
  then have "basicIdentity r \<notin> set (map identity (seen s))"
    by (auto simp: findIndex_None areSameEnv_identity)
  with None show ?thesis
    by (simp add: reducer_loop_body_def Let_def)
next
  case (Some n)
  then have n: "n < length (seen s)" and i: "identity (seen s ! n) = basicIdentity r"
    using findIndex_Some [OF Some] by (simp_all add: areSameEnv_identity)
  then have "basicIdentity r \<in> set (map identity (seen s))"
    by (metis length_map nth_map nth_mem)
  with Some show ?thesis
    by (simp add: reducer_loop_body_def Let_def)
qed

lemma first_observed_from_distinct:
  "distinct ids \<Longrightarrow> distinct (ids @ map basicIdentity (first_observed_from ids rs))"
proof (induction rs arbitrary: ids)
  case Nil
  then show ?case by simp
next
  case (Cons r rs)
  show ?case
  proof (cases "basicIdentity r \<in> set ids")
    case True
    with Cons show ?thesis by simp
  next
    case False
    with Cons.prems have "distinct (ids @ [basicIdentity r])" by simp
    from Cons.IH [OF this] False show ?thesis by simp
  qed
qed

lemma first_observed_from_all:
  "distinct (map basicIdentity rs) \<Longrightarrow> set (map basicIdentity rs) \<inter> set ids = {} \<Longrightarrow>
   first_observed_from ids rs = rs"
  by (induction rs arbitrary: ids) auto

section \<open>What the primary sequence yields\<close>

lemma listener_progress:
  "\<exists>t. onUpdated_listener conv s (ProgressNotificationEvent stg) = Inr t
       \<and> seen t = seen s \<and> suspended t = suspended s \<and> yielded t = yielded s"
  by (simp add: onUpdated_listener_def Let_def)

lemma listener_yielded:
  "(onUpdated_listener conv s ev = Inl (e, t) \<longrightarrow> yielded t = yielded s) \<and>
   (onUpdated_listener conv s ev = Inr t \<longrightarrow> yielded t = yielded s)"
  by (auto simp: onUpdated_listener_def Let_def split: envEvent.splits option.splits)

lemma step_notify_yielded:
  "yielded (stage_step (onUpdated_listener conv) B s (Notify ev)) = yielded s"
  using listener_yielded [of conv s ev]
  by (auto simp: stage_step_def split: sum.splits prod.splits)

lemma seen_resume_cong:
  "seen t = seen s \<Longrightarrow> suspended t = suspended s \<Longrightarrow> seen (resume t) = seen (resume s)"
  by (simp add: resume_def split: option.splits)

lemma adapter_steps_yielded:
  "yielded (stage_steps (onUpdated_listener conv) (ConvertLocator_loop_body m) s items) =
     yielded s @ map (convertToBasicEnv m) (upstream_records items)"
proof (induction items arbitrary: s)
  case Nil
  show ?case by simp
next
  case (Cons item items)
  show ?case
  proof (cases item)
    case (Next r)
    with Cons [of "stage_step (onUpdated_listener conv) (ConvertLocator_loop_body m) s item"]
    show ?thesis
      by (simp add: stage_step_def ConvertLocator_loop_body_def Let_def)
  next
    case (Notify ev)
    with Cons [of "stage_step (onUpdated_listener conv) (ConvertLocator_loop_body m) s item"]
    show ?thesis
      by (simp add: step_notify_yielded)
  next
    case Pull
    with Cons [of "stage_step (onUpdated_listener conv) (ConvertLocator_loop_body m) s item"]
    show ?thesis
      by (simp add: stage_step_def)
  qed
qed

lemma reducer_step_records:
  assumes "\<not> is_update item"
  shows "yielded (stage_step (onUpdated_listener conv) (reducer_loop_body f g) s item) =
           yielded s @ map convertBasicToComposite
             (first_observed_from (map identity (seen (resume s))) (upstream_records [item]))"
    and "map identity (seen (resume
           (stage_step (onUpdated_listener conv) (reducer_loop_body f g) s item))) =
           map identity (seen (resume s)) @ map basicIdentity
             (first_observed_from (map identity (seen (resume s))) (upstream_records [item]))"
proof -
  let ?s = "stage_step (onUpdated_listener conv) (reducer_loop_body f g) s item"
  have "yielded ?s = yielded s @ map convertBasicToComposite
             (first_observed_from (map identity (seen (resume s))) (upstream_records [item]))
      \<and> map identity (seen (resume ?s)) = map identity (seen (resume s)) @ map basicIdentity
             (first_observed_from (map identity (seen (resume s))) (upstream_records [item]))"
  proof (cases item)
    case (Next r)
    have n: "suspended (resume s) = None" by simp
    show ?thesis
      unfolding Next
      by (simp add: stage_step_def reducer_body_seen [OF n] reducer_body_yielded)
  next
    case Pull
    show ?thesis
      unfolding Pull by (simp add: stage_step_def)
  next
    case (Notify ev)
    with assms obtain stg where ev: "ev = ProgressNotificationEvent stg"
      by (cases ev) auto
    have "seen ?s = seen s \<and> suspended ?s = suspended s \<and> yielded ?s = yielded s"
      using listener_progress [of conv s stg]
      unfolding Notify ev
      by (cases "listening s") (auto simp: stage_step_def)
    then have "seen (resume ?s) = seen (resume s)" "yielded ?s = yielded s"
      using seen_resume_cong [of ?s s] by blast+
    then show ?thesis
      unfolding Notify by simp
  qed
  then show
    "yielded ?s = yielded s @ map convertBasicToComposite
             (first_observed_from (map identity (seen (resume s))) (upstream_records [item]))"
    "map identity (seen (resume ?s)) = map identity (seen (resume s)) @ map basicIdentity
             (first_observed_from (map identity (seen (resume s))) (upstream_records [item]))"
    by blast+
qed

lemma first_observed_from_append:
  "first_observed_from ids (xs @ ys) =
     first_observed_from ids xs @
     first_observed_from (ids @ map basicIdentity (first_observed_from ids xs)) ys"
  by (induction xs arbitrary: ids) auto

lemma upstream_records_Cons:
  "upstream_records (item # items) = upstream_records [item] @ upstream_records items"
  by (cases item) simp_all

lemma reducer_steps_records:
  "filter is_update items = [] \<Longrightarrow>
   yielded (stage_steps (onUpdated_listener conv) (reducer_loop_body f g) s items) =
     yielded s @ map convertBasicToComposite
       (first_observed_from (map identity (seen (resume s))) (upstream_records items))
   \<and> map identity (seen (resume
        (stage_steps (onUpdated_listener conv) (reducer_loop_body f g) s items))) =
     map identity (seen (resume s)) @ map basicIdentity
       (first_observed_from (map identity (seen (resume s))) (upstream_records items))"
proof (induction items arbitrary: s)
  case Nil
  show ?case by simp
next
  case (Cons item items)
  then have rest: "filter is_update items = []" and it: "\<not> is_update item"
    by (simp_all split: if_splits)
  let ?s = "stage_step (onUpdated_listener conv) (reducer_loop_body f g) s item"
  note IH = Cons.IH [OF rest, of ?s]
  note st = reducer_step_records [OF it, of conv f g s]
  have split: "first_observed_from (map identity (seen (resume s))) (upstream_records (item # items)) =
        first_observed_from (map identity (seen (resume s))) (upstream_records [item]) @
        first_observed_from (map identity (seen (resume ?s))) (upstream_records items)"
    by (subst upstream_records_Cons) (simp only: first_observed_from_append st(2))
  show ?case
    unfolding stage_steps.simps split
    using IH st by simp
qed

lemma reducer_run_records:
  assumes "filter is_update items = []"
  shows "yielded (iterEnvsIterator f g hasOnUpdated items) =
           map convertBasicToComposite (first_observed (upstream_records items))"
proof -
  have i: "seen (resume (initial_stage hasOnUpdated :: CompositeEnvInfo stage)) = []"
    "yielded (initial_stage hasOnUpdated :: CompositeEnvInfo stage) = []"
    by (simp_all add: initial_stage_def Let_def resume_def)
  from reducer_steps_records [OF assms, of convertBasicToComposite f g "initial_stage hasOnUpdated"]
  show ?thesis
    by (simp add: iterEnvsIterator_def stage_run_def stage_after_def i first_observed_def)
qed

lemma reducer_no_duplicates_without_updates:
  assumes "filter is_update items = []"
  shows "distinct (map identity (yielded (iterEnvsIterator f g hasOnUpdated items)))"
proof -
  have "map identity (yielded (iterEnvsIterator f g hasOnUpdated items)) =
        map basicIdentity (first_observed (upstream_records items))"
    by (simp add: reducer_run_records [OF assms] comp_def)
  moreover have "distinct (map basicIdentity (first_observed (upstream_records items)))"
    using first_observed_from_distinct [of "[]" "upstream_records items"]
    by (simp add: first_observed_def)
  ultimately show ?thesis
    by simp
qed

section \<open>Runs of a stage\<close>

lemma steps_append:
  "stage_steps L B s (xs @ ys) = stage_steps L B (stage_steps L B s xs) ys"
  by (induction xs arbitrary: s) auto

lemma after_append:
  "stage_after L B b (xs @ ys) = stage_steps L B (stage_after L B b xs) ys"
  by (simp add: stage_after_def steps_append)

lemma run_after: "stage_run L B b items = after_loop b (resume (stage_after L B b items))"
  by (simp add: stage_run_def)

subsection \<open>The log does not steer a run\<close>

lemma adapter_ignores_trace: "ignores_trace (ConvertLocator_loop_body m)"
  by (simp add: ignores_trace_def ConvertLocator_loop_body_def Let_def)

lemma resolveDifferences_traced:
  "resolveDifferencesInBackground f g n e (s\<lparr> traced := l \<rparr>) =
     (resolveDifferencesInBackground f g n e s)\<lparr> traced := l \<rparr>"
  by (simp add: resolveDifferencesInBackground_def Let_def fire_def dispose_def
      checkIfFinishedAndNotify_def array_get_def split: prod.splits)

lemma reducer_ignores_trace: "ignores_trace (reducer_loop_body f g)"
  by (simp add: ignores_trace_def reducer_loop_body_def Let_def resolveDifferences_traced
      split: option.splits)

lemma without_trace_eq: "(without_trace s = without_trace t) = (s = t\<lparr> traced := traced s \<rparr>)"
  by (cases s, cases t) (auto simp: without_trace_def)

lemma without_trace_traced [simp]: "without_trace (s\<lparr> traced := l \<rparr>) = without_trace s"
  by (simp add: without_trace_def)

lemma resume_traced: "resume (s\<lparr> traced := l \<rparr>) = (resume s)\<lparr> traced := l \<rparr>"
  by (simp add: resume_def split: option.splits)

lemma after_loop_traced: "after_loop b (s\<lparr> traced := l \<rparr>) = (after_loop b s)\<lparr> traced := l \<rparr>"
  by (simp add: after_loop_def checkIfFinishedAndNotify_def fire_def dispose_def)

lemma listener_without_trace:
  "without_trace (stage_step (onUpdated_listener conv) B (s\<lparr> traced := l \<rparr>) (Notify ev)) =
   without_trace (stage_step (onUpdated_listener conv) B s (Notify ev))"
  by (cases ev)
    (auto simp: stage_step_def onUpdated_listener_def Let_def fire_def dispose_def
      checkIfFinishedAndNotify_def without_trace_def split: option.splits)

lemma step_without_trace:
  assumes "ignores_trace B"
  shows "without_trace (stage_step (onUpdated_listener conv) B (s\<lparr> traced := l \<rparr>) item) =
         without_trace (stage_step (onUpdated_listener conv) B s item)"
proof (cases item)
  case (Next r)
  have "B (resume (s\<lparr> traced := l \<rparr>)) r = (B (resume s) r)\<lparr> traced := l \<rparr>"
    using assms by (simp add: ignores_trace_def resume_traced)
  with Next show ?thesis
    by (simp add: stage_step_def)
next
  case (Notify ev)
  then show ?thesis
    by (simp add: listener_without_trace)
next
  case Pull
  then show ?thesis
    by (simp add: stage_step_def resume_traced)
qed

lemma steps_without_trace:
  assumes "ignores_trace B"
  shows "without_trace (stage_steps (onUpdated_listener conv) B (s\<lparr> traced := l \<rparr>) items) =
         without_trace (stage_steps (onUpdated_listener conv) B s items)"
proof (induction items arbitrary: s l)
  case Nil
  show ?case by simp
next
  case (Cons item items)
  let ?t = "stage_step (onUpdated_listener conv) B s item"
  let ?t' = "stage_step (onUpdated_listener conv) B (s\<lparr> traced := l \<rparr>) item"
  have "without_trace ?t' = without_trace ?t"
    using step_without_trace [OF assms] .
  then have "?t' = ?t\<lparr> traced := traced ?t' \<rparr>"
    by (simp add: without_trace_eq)
  then have "stage_steps (onUpdated_listener conv) B ?t' items =
             stage_steps (onUpdated_listener conv) B (?t\<lparr> traced := traced ?t' \<rparr>) items"
    by simp
  with Cons [of "traced ?t'" ?t] show ?case
    by simp
qed

lemma finish_without_trace:
  "without_trace s = without_trace t \<Longrightarrow>
   without_trace (after_loop b (resume s)) = without_trace (after_loop b (resume t))"
proof -
  assume "without_trace s = without_trace t"
  then have "s = t\<lparr> traced := traced s \<rparr>"
    by (simp add: without_trace_eq)
  then have "after_loop b (resume s) = (after_loop b (resume t))\<lparr> traced := traced s \<rparr>"
    by (metis resume_traced after_loop_traced)
  then show ?thesis
    by simp
qed

subsection \<open>The completion state between two items\<close>

lemma settled_initial: "settled (initial_stage b)"
  by (simp add: settled_def initial_stage_def Let_def fire_def finished_event_def)

lemma settled_resume: "settled s \<Longrightarrow> settled (resume s)"
  by (simp add: settled_def)

lemma adapter_keeps_settled: "keeps_settled (ConvertLocator_loop_body m)"
  by (simp add: keeps_settled_def settled_def ConvertLocator_loop_body_def Let_def)

lemma resolveDifferences_settled:
  "settled s \<Longrightarrow> n < length (seen s) \<Longrightarrow> settled (resolveDifferencesInBackground f g n e s)"
  by (auto simp: settled_def resolveDifferencesInBackground_def Let_def fire_def dispose_def
      checkIfFinishedAndNotify_def finished_event_def array_get_def split: prod.splits)

lemma reducer_keeps_settled: "keeps_settled (reducer_loop_body f g)"
proof -
  have "settled (reducer_loop_body f g s r)" if s: "settled s" for s r
  proof (cases "findIndex (\<lambda>e. areSameEnv e (convertBasicToComposite r)) (seen s)")
    case None
    with s show ?thesis
      by (simp add: reducer_loop_body_def Let_def settled_def)
  next
    case (Some n)
    then have "n < length (seen s)"
      using findIndex_Some [OF Some] by simp
    with Some s show ?thesis
      by (simp add: reducer_loop_body_def Let_def resolveDifferences_settled)
  qed
  then show ?thesis
    by (simp add: keeps_settled_def settled_resume)
qed

lemma listener_settled:
  "settled s \<Longrightarrow> listening s \<Longrightarrow>
   settled (stage_step (onUpdated_listener conv) B s (Notify ev))"
  by (cases ev)
    (auto simp: settled_def stage_step_def onUpdated_listener_def Let_def fire_def dispose_def
      checkIfFinishedAndNotify_def finished_event_def split: option.splits if_splits)

lemma step_settled:
  assumes "keeps_settled B" and "settled s"
  shows "settled (stage_step (onUpdated_listener conv) B s item)"
proof (cases item)
  case (Next r)
  with assms show ?thesis
    by (simp add: stage_step_def keeps_settled_def)
next
  case (Notify ev)
  show ?thesis
  proof (cases "listening s")
    case True
    with assms(2) Notify show ?thesis
      by (simp add: listener_settled)
  next
    case False
    with assms(2) Notify show ?thesis
      by (simp add: stage_step_def)
  qed
next
  case Pull
  with assms(2) show ?thesis
    by (simp add: stage_step_def settled_resume)
qed

lemma steps_settled:
  assumes "keeps_settled B"
  shows "settled s \<Longrightarrow> settled (stage_steps (onUpdated_listener conv) B s items)"
  by (induction items arbitrary: s) (simp_all add: step_settled [OF assms])

lemma step_done:
  assumes "keeps_subscription B"
  shows "done_flag (stage_step (onUpdated_listener conv) B s item) =
           (done_flag s \<or> listening s \<and> item = Notify finished_event)"
proof (cases item)
  case (Next r)
  with assms show ?thesis
    by (simp add: stage_step_def keeps_subscription_def)
next
  case (Notify ev)
  then show ?thesis
    by (cases ev)
      (auto simp: stage_step_def onUpdated_listener_def Let_def finished_event_def
        split: option.splits)
next
  case Pull
  then show ?thesis
    by (simp add: stage_step_def)
qed

lemma steps_done:
  assumes "keeps_subscription B"
  shows "listening (stage_steps (onUpdated_listener conv) B s items) =
           (listening s \<and> Notify finished_event \<notin> set items) \<and>
         done_flag (stage_steps (onUpdated_listener conv) B s items) =
           (done_flag s \<or> listening s \<and> Notify finished_event \<in> set items)"
proof (induction items arbitrary: s)
  case Nil
  show ?case by simp
next
  case (Cons item items)
  from Cons [of "stage_step (onUpdated_listener conv) B s item"]
       step_raised [OF assms, of conv s item] step_done [OF assms, of conv s item]
  show ?case
    by auto
qed

lemma dropped_update:
  assumes "settled s" and "listening s" and "array_get (seen s) i = None"
  shows "stage_step (onUpdated_listener conv) B s (Notify (PythonEnvUpdatedEvent i old (Some u))) =
           s\<lparr> traced := traced s @ [ExpectedAlreadyIteratedEnv i] \<rparr>"
  using assms by (simp add: stage_step_def onUpdated_listener_def Let_def settled_def)

lemma reaches_skip_update:
  "undefined_update_reaches_listener (pre @ Notify (PythonEnvUpdatedEvent i old (Some u)) # post) =
   undefined_update_reaches_listener (pre @ post)"
proof (induction pre)
  case Nil
  show ?case by simp
next
  case (Cons item pre)
  show ?case
  proof (cases item)
    case (Notify ev)
    with Cons show ?thesis
      by (cases ev) (simp_all split: option.splits)
  qed (use Cons in simp_all)
qed

lemma completion_of_run:
  fixes conv B b items
  defines "s \<equiv> stage_run (onUpdated_listener conv) B b items"
  assumes "keeps_settled B" and "keeps_subscription B"
  shows "pending s = int (length (raised s))
       \<and> (raised s = []) = (\<not> (b \<and> undefined_update_reaches_listener items))
       \<and> disposed s = (done_flag s \<and> raised s = [])
       \<and> done_flag s = (\<not> b \<or> Notify finished_event \<in> set items)
       \<and> count_list (fired s) finished_event = (if disposed s then 1 else 0)
       \<and> (disposed s \<longrightarrow> last (fired s) = finished_event)
       \<and> count_list (fired (stage_after (onUpdated_listener conv) B False items))
            finished_event = 0"
proof -
  let ?t = "stage_after (onUpdated_listener conv) B b items"
  have st: "settled ?t"
    unfolding stage_after_def using steps_settled [OF assms(2) settled_initial] .
  have i: "listening (initial_stage b :: 'a stage) = b" "\<not> done_flag (initial_stage b :: 'a stage)"
    "raised (initial_stage b :: 'a stage) = []"
    by (simp_all add: initial_stage_def Let_def)
  have d: "done_flag ?t = (b \<and> Notify finished_event \<in> set items)"
    unfolding stage_after_def using steps_done [OF assms(3), of conv "initial_stage b" items] i
    by simp
  have l: "listening ?t = (b \<and> Notify finished_event \<notin> set items)"
    unfolding stage_after_def using steps_done [OF assms(3), of conv "initial_stage b" items] i
    by simp
  have r: "(raised ?t = []) = (\<not> (b \<and> undefined_update_reaches_listener items))"
    unfolding stage_after_def using steps_raised [OF assms(3), of conv "initial_stage b" items] i
    by simp
  have fin: "settled s \<and> done_flag s = (\<not> b \<or> Notify finished_event \<in> set items)
             \<and> raised s = raised ?t"
  proof (cases b)
    case True
    with st d show ?thesis
      by (simp add: s_def stage_run_def after_loop_def settled_resume)
  next
    case False
    with r have "raised ?t = []" by simp
    with False st d l show ?thesis
      by (simp add: s_def stage_run_def after_loop_def settled_def checkIfFinishedAndNotify_def
          fire_def dispose_def finished_event_def)
  qed
  have st0: "settled (stage_after (onUpdated_listener conv) B False items)"
    unfolding stage_after_def using steps_settled [OF assms(2) settled_initial] .
  have "\<not> done_flag (stage_after (onUpdated_listener conv) B False items)"
    unfolding stage_after_def
    using steps_done [OF assms(3), of conv "initial_stage False" items]
    by (simp add: initial_stage_def Let_def)
  with st0 have z:
    "count_list (fired (stage_after (onUpdated_listener conv) B False items)) finished_event = 0"
    by (simp add: settled_def)
  from fin r z show ?thesis
    by (simp add: settled_def)
qed

section \<open>The reducer: what the primary sequence yields\<close>

text \<open>
  C1. The reducer yields an identity twice on \<open>reported_again\<close>: two reports of python3.9
  collapse into the buffer entry 0, python2.7 is the buffer entry 1, the update of the
  upstream record 1 (python3.9) overwrites the buffer entry 1, and the next report of
  python2.7 finds no matching entry and is yielded again. Without update events no
  identity is yielded twice (\<open>reducer_no_duplicates_without_updates\<close>).
\<close>

theorem reducer_yields_identity_twice:
  "map identity (yielded (iterEnvsIterator rank_kinds rank_providers True reported_again)) =
     [(''/usr/bin/python3.9'', ''''), (''/usr/bin/python2.7'', ''''), (''/usr/bin/python2.7'', '''')]
   \<and> \<not> distinct (map identity
         (yielded (iterEnvsIterator rank_kinds rank_providers True reported_again)))"
  by (simp add: run_defs example_defs identity_def)

text \<open>
  C4. On \<open>reported_again\<close> the reducer yields python3.9, python2.7 and python2.7 again,
  whereas the identities first observed in the upstream sequence are python3.9 and
  python2.7, in that order: the primary sequence is not the sequence of the records
  first observed. Without update events it is (\<open>reducer_run_records\<close>).
\<close>

theorem reducer_yields_beyond_first_seen:
  "yielded (iterEnvsIterator rank_kinds rank_providers True reported_again) =
     [convertBasicToComposite python39_by_A, convertBasicToComposite python27_by_A,
      convertBasicToComposite python27_by_A]
   \<and> first_observed (upstream_records reported_again) = [python39_by_A, python27_by_A]
   \<and> upstream_records reported_again =
       [python39_by_A, python39_by_B, python27_by_A, python27_by_A]"
  by (simp add: run_defs example_defs first_observed_def basicIdentity_def)

section \<open>The reducer: the index of a republished update\<close>

text \<open>
  C5. The reducer looks the update up, stores it and republishes it at the index the
  upstream event carries. Once two upstream records have collapsed into one buffer
  entry the two index spaces differ: here the upstream records 0 and 1 are the buffer
  entry 0 and the upstream record 2 is the buffer entry 1. The update of the upstream
  record 1, the interpreter whose buffer entry is at position 0, replaces the buffer
  entry 1, another interpreter, and is republished with index 1. This is the run in
  which the consumer has pulled after the third record. When the update arrives while
  the reducer is still suspended on the third record, the buffer has no entry 1 yet and
  the update is logged and dropped.
\<close>

theorem upstream_index_reused_after_collapse:
  "iterEnvsIterator rank_kinds rank_providers True collapse_then_records =
     \<lparr> done_flag = False, pending = 0,
       seen = [python39_merged, convertBasicToComposite python27_by_A], suspended = None,
       listening = True, disposed = False,
       fired = [PythonEnvUpdatedEvent 0 (Some (convertBasicToComposite python39_by_A))
                  (Some python39_merged)],
       yielded = [convertBasicToComposite python39_by_A, convertBasicToComposite python27_by_A],
       traced = [], raised = [] \<rparr>
   \<and> findIndex (\<lambda>e. areSameEnv e (convertBasicToComposite python39_refined_by_B))
        [python39_merged, convertBasicToComposite python27_by_A] = Some 0
   \<and> iterEnvsIterator rank_kinds rank_providers True
        (collapse_then_records @ [Pull, update_of_upstream_1]) =
     \<lparr> done_flag = False, pending = 0,
       seen = [python39_merged, convertBasicToComposite python39_refined_by_B], suspended = None,
       listening = True, disposed = False,
       fired = [PythonEnvUpdatedEvent 0 (Some (convertBasicToComposite python39_by_A))
                  (Some python39_merged),
                PythonEnvUpdatedEvent 1 (Some (convertBasicToComposite python27_by_A))
                  (Some (convertBasicToComposite python39_refined_by_B))],
       yielded = [convertBasicToComposite python39_by_A, convertBasicToComposite python27_by_A],
       traced = [], raised = [] \<rparr>
   \<and> reducer_after rank_kinds rank_providers True
        (collapse_then_records @ [update_of_upstream_1]) =
     \<lparr> done_flag = False, pending = 0,
       seen = [python39_merged], suspended = Some (convertBasicToComposite python27_by_A),
       listening = True, disposed = False,
       fired = [PythonEnvUpdatedEvent 0 (Some (convertBasicToComposite python39_by_A))
                  (Some python39_merged)],
       yielded = [convertBasicToComposite python39_by_A, convertBasicToComposite python27_by_A],
       traced = [ExpectedAlreadyIteratedEnv 1], raised = [] \<rparr>"
  by (simp add: run_defs example_defs)

section \<open>Completion\<close>

text \<open>
  C2, as the spec states it, fails for a stream with a notification source. The stage
  sets \<open>state.done\<close> when the upstream source delivers \<open>discoveryFinished\<close>, not when
  the primary sequence is exhausted: when that event comes first the stage delivers its
  own finished event at once, before the record that is still to come is yielded; and
  when the upstream source delivers none, the stage delivers none.
\<close>

theorem finished_follows_upstream_finished:
  "iterEnvsIterator rank_kinds rank_providers True [Notify finished_event] =
     \<lparr> done_flag = True, pending = 0, seen = [], suspended = None, listening = False,
       disposed = True, fired = [finished_event], yielded = [], traced = [], raised = [] \<rparr>
   \<and> iterEnvsIterator rank_kinds rank_providers True [Notify finished_event, Next python39_by_A] =
     \<lparr> done_flag = True, pending = 0, seen = [convertBasicToComposite python39_by_A],
       suspended = None, listening = False, disposed = True,
       fired = [finished_event], yielded = [convertBasicToComposite python39_by_A],
       traced = [], raised = [] \<rparr>
   \<and> iterEnvsIterator rank_kinds rank_providers True [Next python39_by_A] =
     \<lparr> done_flag = False, pending = 0, seen = [convertBasicToComposite python39_by_A],
       suspended = None, listening = True, disposed = False,
       fired = [], yielded = [convertBasicToComposite python39_by_A], traced = [], raised = [] \<rparr>
   \<and> ConvertLocator_iterEnvsIterator metadata_A True [Notify finished_event, Next external_python39] =
     \<lparr> done_flag = True, pending = 0, seen = [basic_python39],
       suspended = None, listening = False, disposed = True,
       fired = [finished_event], yielded = [basic_python39], traced = [], raised = [] \<rparr>"
  by (simp add: run_defs example_defs)

text \<open>
  C2, amended. For the adapter and the reducer, at the end of every run: the units of
  work in flight are the listener calls that have thrown on an undefined update, so
  none is in flight when none has thrown; the emitter is disposed exactly when the
  stage is done and no listener call has thrown; the finished event has been delivered
  once if the emitter is disposed and never if it is not, and then it is the last event
  delivered, so that a second finished event cannot be delivered. Without an upstream
  notification source no listener call throws, the stage is done when the primary
  sequence is exhausted, and no finished event is delivered before. With one, the stage
  is done exactly when the upstream source has delivered \<open>discoveryFinished\<close>.
\<close>

theorem finished_at_most_once_when_done:
  assumes "ConvertLocator_iterEnvsIterator m b items = sa"
      and "iterEnvsIterator f g b' items' = sr"
  shows "pending sa = int (length (raised sa))
       \<and> (raised sa = []) = (\<not> (b \<and> undefined_update_reaches_listener items))
       \<and> disposed sa = (done_flag sa \<and> raised sa = [])
       \<and> done_flag sa = (\<not> b \<or> Notify finished_event \<in> set items)
       \<and> count_list (fired sa) finished_event = (if disposed sa then 1 else 0)
       \<and> (disposed sa \<longrightarrow> last (fired sa) = finished_event)
       \<and> count_list (fired (ConvertLocator_after m False items)) finished_event = 0
       \<and> pending sr = int (length (raised sr))
       \<and> (raised sr = []) = (\<not> (b' \<and> undefined_update_reaches_listener items'))
       \<and> disposed sr = (done_flag sr \<and> raised sr = [])
       \<and> done_flag sr = (\<not> b' \<or> Notify finished_event \<in> set items')
       \<and> count_list (fired sr) finished_event = (if disposed sr then 1 else 0)
       \<and> (disposed sr \<longrightarrow> last (fired sr) = finished_event)
       \<and> count_list (fired (reducer_after f g False items')) finished_event = 0"
proof -
  note a = completion_of_run [where B = "ConvertLocator_loop_body m"
      and conv = "convertToBasicEnv m" and b = b and items = items,
      OF adapter_keeps_settled adapter_keeps_subscription]
  note r = completion_of_run [where B = "reducer_loop_body f g"
      and conv = convertBasicToComposite and b = b' and items = items',
      OF reducer_keeps_settled reducer_keeps_subscription]
  from a have "pending sa = int (length (raised sa))
       \<and> (raised sa = []) = (\<not> (b \<and> undefined_update_reaches_listener items))
       \<and> disposed sa = (done_flag sa \<and> raised sa = [])
       \<and> done_flag sa = (\<not> b \<or> Notify finished_event \<in> set items)
       \<and> count_list (fired sa) finished_event = (if disposed sa then 1 else 0)
       \<and> (disposed sa \<longrightarrow> last (fired sa) = finished_event)
       \<and> count_list (fired (ConvertLocator_after m False items)) finished_event = 0"
    unfolding assms(1) [symmetric] ConvertLocator_iterEnvsIterator_def ConvertLocator_after_def
    by blast
  moreover from r have "pending sr = int (length (raised sr))
       \<and> (raised sr = []) = (\<not> (b' \<and> undefined_update_reaches_listener items'))
       \<and> disposed sr = (done_flag sr \<and> raised sr = [])
       \<and> done_flag sr = (\<not> b' \<or> Notify finished_event \<in> set items')
       \<and> count_list (fired sr) finished_event = (if disposed sr then 1 else 0)
       \<and> (disposed sr \<longrightarrow> last (fired sr) = finished_event)
       \<and> count_list (fired (reducer_after f g False items')) finished_event = 0"
    unfolding assms(2) [symmetric] iterEnvsIterator_def reducer_after_def
    by blast
  ultimately show ?thesis
    by blast
qed

theorem finished_at_most_once_when_done_witness:
  "ConvertLocator_iterEnvsIterator metadata_A False external_stream =
     \<lparr> done_flag = True, pending = 0, seen = [basic_python39, basic_by_tool],
       suspended = None, listening = False, disposed = True,
       fired = [ProgressNotificationEvent discoveryStarted, finished_event],
       yielded = [basic_python39, basic_by_tool], traced = [], raised = [] \<rparr>
   \<and> iterEnvsIterator rank_kinds rank_providers True two_producers =
     \<lparr> done_flag = True, pending = 0,
       seen = [python39_merged, convertBasicToComposite python27_by_A],
       suspended = None, listening = False, disposed = True,
       fired = [ProgressNotificationEvent discoveryStarted,
                PythonEnvUpdatedEvent 0 (Some (convertBasicToComposite python39_by_A))
                  (Some python39_merged),
                finished_event],
       yielded = [convertBasicToComposite python39_by_A, convertBasicToComposite python27_by_A],
       traced = [], raised = [] \<rparr>
   \<and> count_list [ProgressNotificationEvent discoveryStarted, finished_event :: BasicEnvInfo envEvent]
        finished_event = 1
   \<and> count_list [ProgressNotificationEvent discoveryStarted,
                    PythonEnvUpdatedEvent 0 (Some (convertBasicToComposite python39_by_A))
                      (Some python39_merged),
                    finished_event] finished_event = 1
   \<and> Notify finished_event \<in> set two_producers
   \<and> \<not> undefined_update_reaches_listener two_producers"
proof -
  let ?sa = "\<lparr> done_flag = True, pending = 0, seen = [basic_python39, basic_by_tool],
       suspended = None, listening = False, disposed = True,
       fired = [ProgressNotificationEvent discoveryStarted, finished_event],
       yielded = [basic_python39, basic_by_tool], traced = [], raised = [] \<rparr>"
  let ?sr = "\<lparr> done_flag = True, pending = 0,
       seen = [python39_merged, convertBasicToComposite python27_by_A],
       suspended = None, listening = False, disposed = True,
       fired = [ProgressNotificationEvent discoveryStarted,
                PythonEnvUpdatedEvent 0 (Some (convertBasicToComposite python39_by_A))
                  (Some python39_merged),
                finished_event],
       yielded = [convertBasicToComposite python39_by_A, convertBasicToComposite python27_by_A],
       traced = [], raised = [] \<rparr>"
  have a: "ConvertLocator_iterEnvsIterator metadata_A False external_stream = ?sa"
    by (simp add: run_defs example_defs)
  have r: "iterEnvsIterator rank_kinds rank_providers True two_producers = ?sr"
    by (simp add: run_defs example_defs)
  from finished_at_most_once_when_done [OF a r]
  show ?thesis
    using a r by simp
qed

section \<open>Updates without a buffer entry\<close>

lemma dropped_update_run:
  fixes conv B pre i old u post
  defines "s \<equiv> stage_after (onUpdated_listener conv) B True pre"
  defines "ev \<equiv> Notify (PythonEnvUpdatedEvent i old (Some u))"
  assumes "keeps_settled B" and "keeps_subscription B" and "ignores_trace B"
      and "listening s" and "array_get (seen s) i = None"
  shows "stage_after (onUpdated_listener conv) B True (pre @ [ev]) =
           s\<lparr> traced := traced s @ [ExpectedAlreadyIteratedEnv i] \<rparr>
       \<and> stage_steps (onUpdated_listener conv) B s (ev # post) =
           stage_steps (onUpdated_listener conv) B
             (s\<lparr> traced := traced s @ [ExpectedAlreadyIteratedEnv i] \<rparr>) post
       \<and> without_trace (stage_run (onUpdated_listener conv) B True (pre @ ev # post)) =
           without_trace (stage_run (onUpdated_listener conv) B True (pre @ post))
       \<and> (Notify finished_event \<in> set post \<and> \<not> undefined_update_reaches_listener (pre @ post) \<longrightarrow>
            count_list (fired (stage_run (onUpdated_listener conv) B True (pre @ ev # post)))
              finished_event = 1 \<and>
            last (fired (stage_run (onUpdated_listener conv) B True (pre @ ev # post))) =
              finished_event)"
proof -
  have st: "settled s"
    unfolding s_def stage_after_def using steps_settled [OF assms(3) settled_initial] .
  have d: "stage_step (onUpdated_listener conv) B s ev =
           s\<lparr> traced := traced s @ [ExpectedAlreadyIteratedEnv i] \<rparr>"
    unfolding ev_def using st assms(6,7) by (rule dropped_update)
  have one: "stage_after (onUpdated_listener conv) B True (pre @ [ev]) =
           s\<lparr> traced := traced s @ [ExpectedAlreadyIteratedEnv i] \<rparr>"
    using d by (simp add: after_append s_def)
  have two: "stage_steps (onUpdated_listener conv) B s (ev # post) =
           stage_steps (onUpdated_listener conv) B
             (s\<lparr> traced := traced s @ [ExpectedAlreadyIteratedEnv i] \<rparr>) post"
    using d by simp
  have "without_trace (stage_after (onUpdated_listener conv) B True (pre @ ev # post)) =
        without_trace (stage_after (onUpdated_listener conv) B True (pre @ post))"
    using two steps_without_trace [OF assms(5), of conv _ s post]
    by (simp add: after_append s_def)
  then have three:
    "without_trace (stage_run (onUpdated_listener conv) B True (pre @ ev # post)) =
     without_trace (stage_run (onUpdated_listener conv) B True (pre @ post))"
    unfolding stage_run_def by (rule finish_without_trace)
  note c = completion_of_run [where B = B and conv = conv and b = True
      and items = "pre @ ev # post", OF assms(3,4)]
  have "undefined_update_reaches_listener (pre @ ev # post) =
        undefined_update_reaches_listener (pre @ post)"
    unfolding ev_def by (rule reaches_skip_update)
  with c have four:
    "Notify finished_event \<in> set post \<and> \<not> undefined_update_reaches_listener (pre @ post) \<longrightarrow>
       count_list (fired (stage_run (onUpdated_listener conv) B True (pre @ ev # post)))
         finished_event = 1 \<and>
       last (fired (stage_run (onUpdated_listener conv) B True (pre @ ev # post))) =
         finished_event"
    by auto
  from one two three four show ?thesis
    by blast
qed

text \<open>
  C8. In the adapter and in the reducer: an update event (with an update) that reaches
  the subscribed listener when the buffer has no entry at its index is logged and
  dropped. The state after it is the state before it with one more line logged: the
  buffer, the completion state, the events delivered and the values yielded are as
  they were. Whatever the stream does afterwards, the run ends as the run without the
  event ends, log apart. The remaining records are yielded: by the adapter every one
  of them, by the reducer (when no update event follows) every one whose identity is
  not in its buffer and has not been yielded since. When the upstream source then
  delivers \<open>discoveryFinished\<close> and no listener call has thrown, the stage delivers the
  finished event, once and as the last event.
\<close>

theorem update_without_buffer_entry_is_dropped:
  assumes "listening (ConvertLocator_after m True pre)"
      and "array_get (seen (ConvertLocator_after m True pre)) i = None"
      and "listening (reducer_after f g True pre')"
      and "array_get (seen (reducer_after f g True pre')) j = None"
  shows "ConvertLocator_after m True (pre @ [Notify (PythonEnvUpdatedEvent i old (Some u))]) =
           (ConvertLocator_after m True pre)
             \<lparr> traced := traced (ConvertLocator_after m True pre) @ [ExpectedAlreadyIteratedEnv i] \<rparr>
       \<and> without_trace (ConvertLocator_iterEnvsIterator m True
           (pre @ Notify (PythonEnvUpdatedEvent i old (Some u)) # post)) =
         without_trace (ConvertLocator_iterEnvsIterator m True (pre @ post))
       \<and> yielded (ConvertLocator_iterEnvsIterator m True
           (pre @ Notify (PythonEnvUpdatedEvent i old (Some u)) # post)) =
         yielded (ConvertLocator_after m True pre) @ map (convertToBasicEnv m) (upstream_records post)
       \<and> (Notify finished_event \<in> set post \<and> \<not> undefined_update_reaches_listener (pre @ post) \<longrightarrow>
            count_list (fired (ConvertLocator_iterEnvsIterator m True
              (pre @ Notify (PythonEnvUpdatedEvent i old (Some u)) # post))) finished_event = 1 \<and>
            last (fired (ConvertLocator_iterEnvsIterator m True
              (pre @ Notify (PythonEnvUpdatedEvent i old (Some u)) # post))) = finished_event)
       \<and> reducer_after f g True (pre' @ [Notify (PythonEnvUpdatedEvent j old' (Some u'))]) =
           (reducer_after f g True pre')
             \<lparr> traced := traced (reducer_after f g True pre') @ [ExpectedAlreadyIteratedEnv j] \<rparr>
       \<and> without_trace (iterEnvsIterator f g True
           (pre' @ Notify (PythonEnvUpdatedEvent j old' (Some u')) # post')) =
         without_trace (iterEnvsIterator f g True (pre' @ post'))
       \<and> (filter is_update post' = [] \<longrightarrow>
            yielded (iterEnvsIterator f g True
              (pre' @ Notify (PythonEnvUpdatedEvent j old' (Some u')) # post')) =
            yielded (reducer_after f g True pre') @ map convertBasicToComposite
              (first_observed_from (map identity (seen (resume (reducer_after f g True pre'))))
                 (upstream_records post')))
       \<and> (Notify finished_event \<in> set post' \<and> \<not> undefined_update_reaches_listener (pre' @ post') \<longrightarrow>
            count_list (fired (iterEnvsIterator f g True
              (pre' @ Notify (PythonEnvUpdatedEvent j old' (Some u')) # post'))) finished_event = 1 \<and>
            last (fired (iterEnvsIterator f g True
              (pre' @ Notify (PythonEnvUpdatedEvent j old' (Some u')) # post'))) = finished_event)"
proof -
  note a = dropped_update_run [where B = "ConvertLocator_loop_body m"
      and conv = "convertToBasicEnv m" and pre = pre and i = i and old = old and u = u and post = post,
      OF adapter_keeps_settled adapter_keeps_subscription adapter_ignores_trace
         assms(1,2) [unfolded ConvertLocator_after_def]]
  note r = dropped_update_run [where B = "reducer_loop_body f g"
      and conv = convertBasicToComposite and pre = pre' and i = j and old = old' and u = u'
      and post = post',
      OF reducer_keeps_settled reducer_keeps_subscription reducer_ignores_trace
         assms(3,4) [unfolded reducer_after_def]]
  have ya: "yielded (ConvertLocator_iterEnvsIterator m True
           (pre @ Notify (PythonEnvUpdatedEvent i old (Some u)) # post)) =
         yielded (ConvertLocator_after m True pre) @ map (convertToBasicEnv m) (upstream_records post)"
  proof -
    let ?s = "ConvertLocator_after m True pre"
    let ?s' = "?s\<lparr> traced := traced ?s @ [ExpectedAlreadyIteratedEnv i] \<rparr>"
    have "stage_after (onUpdated_listener (convertToBasicEnv m)) (ConvertLocator_loop_body m) True
            (pre @ Notify (PythonEnvUpdatedEvent i old (Some u)) # post) =
          stage_steps (onUpdated_listener (convertToBasicEnv m)) (ConvertLocator_loop_body m) ?s' post"
      using a by (simp add: after_append ConvertLocator_after_def)
    moreover have "yielded ?s' = yielded ?s"
      by simp
    ultimately show ?thesis
      using adapter_steps_yielded [of "convertToBasicEnv m" m ?s' post]
      by (simp add: ConvertLocator_iterEnvsIterator_def stage_run_def)
  qed
  have yr: "yielded (iterEnvsIterator f g True
              (pre' @ Notify (PythonEnvUpdatedEvent j old' (Some u')) # post')) =
            yielded (reducer_after f g True pre') @ map convertBasicToComposite
              (first_observed_from (map identity (seen (resume (reducer_after f g True pre'))))
                 (upstream_records post'))"
    if u: "filter is_update post' = []"
  proof -
    let ?s = "reducer_after f g True pre'"
    let ?s' = "?s\<lparr> traced := traced ?s @ [ExpectedAlreadyIteratedEnv j] \<rparr>"
    have "stage_after (onUpdated_listener convertBasicToComposite) (reducer_loop_body f g) True
            (pre' @ Notify (PythonEnvUpdatedEvent j old' (Some u')) # post') =
          stage_steps (onUpdated_listener convertBasicToComposite) (reducer_loop_body f g) ?s' post'"
      using r by (simp add: after_append reducer_after_def)
    moreover have "seen (resume ?s') = seen (resume ?s)" "yielded ?s' = yielded ?s"
      by (simp_all add: resume_traced)
    ultimately show ?thesis
      using reducer_steps_records [OF u, of convertBasicToComposite f g ?s']
      by (simp add: iterEnvsIterator_def stage_run_def)
  qed
  from a r ya yr show ?thesis
    unfolding ConvertLocator_iterEnvsIterator_def ConvertLocator_after_def iterEnvsIterator_def
      reducer_after_def
    by blast
qed


theorem update_without_buffer_entry_is_dropped_witness:
  "listening (ConvertLocator_after metadata_A True external_stream)
   \<and> array_get (seen (ConvertLocator_after metadata_A True external_stream)) 5 = None
   \<and> listening (reducer_after rank_kinds rank_providers True three_distinct)
   \<and> array_get (seen (reducer_after rank_kinds rank_providers True three_distinct)) 5 = None
   \<and> Notify finished_event \<in> set external_one_more_then_finished
   \<and> \<not> undefined_update_reaches_listener (external_stream @ external_one_more_then_finished)
   \<and> Notify finished_event \<in> set one_more_then_finished
   \<and> \<not> undefined_update_reaches_listener (three_distinct @ one_more_then_finished)
   \<and> filter is_update one_more_then_finished = []
   \<and> traced (ConvertLocator_after metadata_A True
        (external_stream @ [Notify (PythonEnvUpdatedEvent 5 None (Some external_python39))])) =
      [ExpectedAlreadyIteratedEnv 5]
   \<and> yielded (ConvertLocator_iterEnvsIterator metadata_A True
        (external_stream @ Notify (PythonEnvUpdatedEvent 5 None (Some external_python39)) #
         external_one_more_then_finished)) =
      [basic_python39, basic_by_tool, basic_python39]
   \<and> fired (ConvertLocator_iterEnvsIterator metadata_A True
        (external_stream @ Notify (PythonEnvUpdatedEvent 5 None (Some external_python39)) #
         external_one_more_then_finished)) =
      [finished_event]
   \<and> without_trace (ConvertLocator_iterEnvsIterator metadata_A True
        (external_stream @ Notify (PythonEnvUpdatedEvent 5 None (Some external_python39)) #
         external_one_more_then_finished)) =
      without_trace (ConvertLocator_iterEnvsIterator metadata_A True
        (external_stream @ external_one_more_then_finished))
   \<and> traced (reducer_after rank_kinds rank_providers True
        (three_distinct @ [Notify (PythonEnvUpdatedEvent 5 None (Some python39_by_B))])) =
      [ExpectedAlreadyIteratedEnv 5]
   \<and> yielded (iterEnvsIterator rank_kinds rank_providers True
        (three_distinct @ Notify (PythonEnvUpdatedEvent 5 None (Some python39_by_B)) #
         one_more_then_finished)) =
      map convertBasicToComposite
        [python39_by_A, python27_by_A,
         python27_by_A\<lparr> BasicEnvInfo.envPath := ''/home/u/.venv'' \<rparr>, python311_by_B]
   \<and> count_list (fired (iterEnvsIterator rank_kinds rank_providers True
        (three_distinct @ Notify (PythonEnvUpdatedEvent 5 None (Some python39_by_B)) #
         one_more_then_finished))) finished_event = 1
   \<and> last (fired (iterEnvsIterator rank_kinds rank_providers True
        (three_distinct @ Notify (PythonEnvUpdatedEvent 5 None (Some python39_by_B)) #
         one_more_then_finished))) = finished_event
   \<and> without_trace (iterEnvsIterator rank_kinds rank_providers True
        (three_distinct @ Notify (PythonEnvUpdatedEvent 5 None (Some python39_by_B)) #
         one_more_then_finished)) =
      without_trace (iterEnvsIterator rank_kinds rank_providers True
        (three_distinct @ one_more_then_finished))"
proof -
  have h1: "listening (ConvertLocator_after metadata_A True external_stream)"
    by (simp add: run_defs example_defs)
  have h2: "array_get (seen (ConvertLocator_after metadata_A True external_stream)) 5 = None"
    by (simp add: run_defs example_defs)
  have h3: "listening (reducer_after rank_kinds rank_providers True three_distinct)"
    by (simp add: run_defs example_defs)
  have h4: "array_get (seen (reducer_after rank_kinds rank_providers True three_distinct)) 5 = None"
    by (simp add: run_defs example_defs)
  have p: "Notify finished_event \<in> set external_one_more_then_finished"
      "\<not> undefined_update_reaches_listener (external_stream @ external_one_more_then_finished)"
      "Notify finished_event \<in> set one_more_then_finished"
      "\<not> undefined_update_reaches_listener (three_distinct @ one_more_then_finished)"
      "filter is_update one_more_then_finished = []"
    by (simp_all add: run_defs example_defs)
  have v: "traced (ConvertLocator_after metadata_A True external_stream) = []"
      "yielded (ConvertLocator_after metadata_A True external_stream) =
         [basic_python39, basic_by_tool]"
      "map (convertToBasicEnv metadata_A) (upstream_records external_one_more_then_finished) =
         [basic_python39]"
      "traced (reducer_after rank_kinds rank_providers True three_distinct) = []"
      "yielded (reducer_after rank_kinds rank_providers True three_distinct) =
         map convertBasicToComposite
           [python39_by_A, python27_by_A,
            python27_by_A\<lparr> BasicEnvInfo.envPath := ''/home/u/.venv'' \<rparr>]"
      "first_observed_from (map identity
           (seen (resume (reducer_after rank_kinds rank_providers True three_distinct))))
         (upstream_records one_more_then_finished) = [python311_by_B]"
      "fired (ConvertLocator_iterEnvsIterator metadata_A True
         (external_stream @ external_one_more_then_finished)) = [finished_event]"
    by (simp_all add: run_defs example_defs identity_def basicIdentity_def)
  have w: "fired (ConvertLocator_iterEnvsIterator metadata_A True
        (external_stream @ Notify (PythonEnvUpdatedEvent 5 None (Some external_python39)) #
         external_one_more_then_finished)) =
      fired (ConvertLocator_iterEnvsIterator metadata_A True
        (external_stream @ external_one_more_then_finished))"
    if "without_trace (ConvertLocator_iterEnvsIterator metadata_A True
        (external_stream @ Notify (PythonEnvUpdatedEvent 5 None (Some external_python39)) #
         external_one_more_then_finished)) =
      without_trace (ConvertLocator_iterEnvsIterator metadata_A True
        (external_stream @ external_one_more_then_finished))"
    using that unfolding without_trace_def
    by (metis (no_types, lifting) stage.select_convs(7) stage.surjective stage.update_convs(9))
  from update_without_buffer_entry_is_dropped [OF h1 h2 h3 h4,
      of None external_python39 external_one_more_then_finished None python39_by_B
         one_more_then_finished]
  show ?thesis
    using h1 h2 h3 h4 p v w by simp
qed

end
